theory Spec2Isabelle
  imports Main "HOL-Library.Char_ord" "HOL-Library.List_Lexorder" "HOL-Library.Sublist"
begin

section \<open>Paths and the file system\<close>

text \<open>
  A \<^verbatim>\<open>pathlib.Path\<close> is modelled by its list of components below a fixed anchor (the
  root for an absolute path, the working directory for a relative one). A component never
  contains the separator. Python compares two paths component by component, each
  component as a string, so \<^verbatim>\<open>sorted\<close> on paths is \<open>sort\<close> in the lexicographic
  order on \<open>string list\<close>.
\<close>

type_synonym path = "string list"

text \<open>\<^verbatim>\<open>p / s\<close> for a segment \<open>s\<close> that is one component.\<close>

definition joinpath :: "path \<Rightarrow> string \<Rightarrow> path" where
  "joinpath p s = p @ [s]"

text \<open>\<^verbatim>\<open>p.name\<close>: the final component, the empty string when there is none.\<close>

definition name :: "path \<Rightarrow> string" where
  "name p = (if p = [] then [] else last p)"

text \<open>\<^verbatim>\<open>p.parent\<close>; the anchor is its own parent.\<close>

definition parent :: "path \<Rightarrow> path" where
  "parent p = butlast p"

fun join_sep :: "string list \<Rightarrow> string" where
  "join_sep [] = []"
| "join_sep [c] = c"
| "join_sep (c # d # cs) = c @ ''/'' @ join_sep (d # cs)"

text \<open>\<^verbatim>\<open>str(p)\<close>, as the f-strings of the source print a path.\<close>

definition path_str :: "path \<Rightarrow> string" where
  "path_str p = (if p = [] then ''.'' else join_sep p)"

datatype kind = File | Dir

type_synonym fs = "path \<Rightarrow> kind option"

text \<open>What is at a path; the anchor is always a directory.\<close>

definition lookup :: "fs \<Rightarrow> path \<Rightarrow> kind option" where
  "lookup f p = (if p = [] then Some Dir else f p)"

text \<open>\<^verbatim>\<open>p.exists()\<close> and \<^verbatim>\<open>p.is_dir()\<close>.\<close>

definition exists :: "fs \<Rightarrow> path \<Rightarrow> bool" where
  "exists f p = (lookup f p \<noteq> None)"

definition is_dir :: "fs \<Rightarrow> path \<Rightarrow> bool" where
  "is_dir f p = (lookup f p = Some Dir)"

datatype error =
    FileNotFoundError string
  | FileExistsError string
  | NotADirectoryError string
  | TypeError string
  | ValueError string
  | RenderingError string

text \<open>\<^verbatim>\<open>os.mkdir(p)\<close>: one directory, whose parent must be a directory.\<close>

definition os_mkdir :: "path \<Rightarrow> fs \<Rightarrow> error + fs" where
  "os_mkdir p f =
     (if lookup f p \<noteq> None then Inl (FileExistsError (path_str p))
      else case lookup f (parent p) of
             None \<Rightarrow> Inl (FileNotFoundError (path_str p))
           | Some File \<Rightarrow> Inl (NotADirectoryError (path_str p))
           | Some Dir \<Rightarrow> Inr (f(p \<mapsto> Dir)))"

text \<open>
  \<^verbatim>\<open>p.mkdir(exist_ok=True, parents=True)\<close>, as pathlib writes it: try \<^verbatim>\<open>os.mkdir\<close>;
  on FileNotFoundError make the parent the same way and try once more; on any other
  error give up unless the path is a directory already. A failure leaves the file system
  as it was, so the result is either an error or the new file system.
\<close>

function mkdir_parents_exist_ok :: "path \<Rightarrow> fs \<Rightarrow> error + fs" where
  "mkdir_parents_exist_ok p f =
     (case os_mkdir p f of
        Inr f' \<Rightarrow> Inr f'
      | Inl (FileNotFoundError m) \<Rightarrow>
          (if parent p = p then Inl (FileNotFoundError m)
           else case mkdir_parents_exist_ok (parent p) f of
                  Inl e \<Rightarrow> Inl e
                | Inr f' \<Rightarrow>
                    (case os_mkdir p f' of
                       Inr f'' \<Rightarrow> Inr f''
                     | Inl e \<Rightarrow> if is_dir f' p then Inr f' else Inl e))
      | Inl e \<Rightarrow> if is_dir f p then Inr f else Inl e)"
  by pat_completeness auto
termination
proof (relation "measure (\<lambda>(p, f). length p)")
  show "wf (measure (\<lambda>(p, f). length p))" by simp
next
  fix p :: path and f :: fs and a x1
  assume "parent p \<noteq> p"
  then have "p \<noteq> []" by (auto simp: parent_def)
  then show "((parent p, f), (p, f)) \<in> measure (\<lambda>(p, f). length p)"
    by (simp add: parent_def)
qed

section \<open>The collaborators\<close>

text \<open>
  A call of the renderer \<^verbatim>\<open>mm.show_micmac_matches\<close>: the positional arguments (all of
  them paths) and the keyword arguments, as the call site passes them. \<open>'v\<close> is the type
  of the values of the free-form rendering options.
\<close>

datatype 'v pyval = PathV path | StrV string | OptV 'v

record 'v render_call =
  pos_args :: "path list"
  kw_args :: "(string \<times> 'v pyval) list"

text \<open>
  The state the function acts on: the file system, the lines it has printed, and the
  renderer calls it has made itself, in order.
\<close>

record 'v world =
  files :: fs
  stdout :: "string list"
  calls :: "'v render_call list"

datatype outcome = Returned | Raised error

text \<open>
  What the source takes from outside: \<^verbatim>\<open>Path.glob\<close> (the matching paths, in the order
  the operating system lists them, or an error for a pattern it rejects), the renderer
  (it may change files and may raise), and \<^verbatim>\<open>Pool().starmap(renderer, params)\<close>, which
  runs the tasks in worker processes in an order of its own.
\<close>

record 'v collaborators =
  glob_paths :: "fs \<Rightarrow> path \<Rightarrow> string \<Rightarrow> error + path list"
  render :: "'v render_call \<Rightarrow> fs \<Rightarrow> error option \<times> fs"
  pool_starmap :: "'v render_call list \<Rightarrow> 'v world \<Rightarrow> outcome \<times> 'v world"

definition print_line :: "string \<Rightarrow> 'v world \<Rightarrow> 'v world" where
  "print_line s w = w\<lparr>stdout := stdout w @ [s]\<rparr>"

text \<open>One call of the renderer from this process: recorded, then run.\<close>

definition call_render :: "'v collaborators \<Rightarrow> 'v render_call \<Rightarrow> 'v world \<Rightarrow> outcome \<times> 'v world" where
  "call_render env c w =
     (case render env c (files w) of
        (None, f') \<Rightarrow> (Returned, w\<lparr>files := f', calls := calls w @ [c]\<rparr>)
      | (Some e, f') \<Rightarrow> (Raised e, w\<lparr>files := f', calls := calls w @ [c]\<rparr>))"

section \<open>Pair enumeration\<close>

text \<open>\<^verbatim>\<open>itertools.combinations(xs, 2)\<close>: pairs by position, in lexicographic order of positions.\<close>

fun combinations2 :: "'a list \<Rightarrow> ('a \<times> 'a) list" where
  "combinations2 [] = []"
| "combinations2 (x # xs) = map (Pair x) xs @ combinations2 xs"

section \<open>show_micmac_matches\<close>

text \<open>The keywords the sequential call site passes itself; a rendering option of the same
  name makes the call raise TypeError.\<close>

definition explicit_keywords :: "string list" where
  "explicit_keywords = [''i0_name'', ''i1_name'', ''out'']"

text \<open>The body of the sequential loop, for one pair.\<close>

definition process_pair ::
  "'v collaborators \<Rightarrow> path \<Rightarrow> path \<Rightarrow> path \<Rightarrow> (string \<times> 'v) list \<Rightarrow> path \<times> path
     \<Rightarrow> 'v world \<Rightarrow> outcome \<times> 'v world" where
  "process_pair env project_path homol_path matches_dir kwargs pr w =
     (case pr of (i0, i1) \<Rightarrow>
        let w1 = print_line (''Exporting matches between '' @ name i0 @ '' and '' @ name i1) w;
            matches_path = joinpath (joinpath homol_path (''Pastis'' @ name i0)) (name i1 @ ''.txt'')
        in if \<not> exists (files w1) matches_path
           then (Raised (FileNotFoundError (''Matches file '' @ path_str matches_path @ '' does not exist'')), w1)
           else if list_ex (\<lambda>k. k \<in> set explicit_keywords) (map fst kwargs)
           then (Raised (TypeError ''got multiple values for keyword argument''), w1)
           else
             (case call_render env
                     \<lparr>pos_args = [matches_path, project_path],
                      kw_args = [(''i0_name'', StrV (name i0)),
                                 (''i1_name'', StrV (name i1)),
                                 (''out'', PathV (joinpath matches_dir
                                            (''matches_'' @ name i0 @ ''-'' @ name i1 @ ''.png'')))]
                                @ map (\<lambda>(k, v). (k, OptV v)) kwargs\<rparr> w1 of
                (Raised e, w2) \<Rightarrow> (Raised e, w2)
              | (Returned, w2) \<Rightarrow> (Returned, print_line ''Done.'' w2)))"

text \<open>The sequential loop: an exception ends it.\<close>

fun sequential_loop ::
  "'v collaborators \<Rightarrow> path \<Rightarrow> path \<Rightarrow> path \<Rightarrow> (string \<times> 'v) list \<Rightarrow> (path \<times> path) list
     \<Rightarrow> 'v world \<Rightarrow> outcome \<times> 'v world" where
  "sequential_loop env project_path homol_path matches_dir kwargs [] w = (Returned, w)"
| "sequential_loop env project_path homol_path matches_dir kwargs (pr # prs) w =
     (case process_pair env project_path homol_path matches_dir kwargs pr w of
        (Raised e, w') \<Rightarrow> (Raised e, w')
      | (Returned, w') \<Rightarrow> sequential_loop env project_path homol_path matches_dir kwargs prs w')"

text \<open>
  \<^verbatim>\<open>with Pool() as p: p.starmap(renderer, params)\<close>: with no task the pool runs
  nothing and returns; otherwise the pool decides what runs when.
\<close>

definition pool_run :: "'v collaborators \<Rightarrow> 'v render_call list \<Rightarrow> 'v world \<Rightarrow> outcome \<times> 'v world" where
  "pool_run env params w = (if params = [] then (Returned, w) else pool_starmap env params w)"

text \<open>The argument tuples the parallel branch builds, one per pair.\<close>

definition parallel_params :: "path \<Rightarrow> path \<Rightarrow> path \<Rightarrow> path list \<Rightarrow> 'v render_call list" where
  "parallel_params project_path homol_path matches_dir images =
     map (\<lambda>(i0, i1).
            \<lparr>pos_args = [joinpath (joinpath homol_path (''Pastis'' @ name i0)) (name i1 @ ''.txt''),
                         project_path,
                         joinpath matches_dir (''matches_'' @ name i0 @ ''-'' @ name i1 @ ''.png'')],
             kw_args = []\<rparr>)
         (combinations2 images)"

definition show_micmac_matches ::
  "'v collaborators \<Rightarrow> path \<Rightarrow> string \<Rightarrow> bool \<Rightarrow> (string \<times> 'v) list
     \<Rightarrow> 'v world \<Rightarrow> outcome \<times> 'v world" where
  "show_micmac_matches env project_dir img_pattern run_parallel kwargs w =
     (let project_path = project_dir in
      if \<not> exists (files w) project_path
      then (Raised (FileNotFoundError (''Project path '' @ path_str project_path @ '' does not exist'')), w)
      else
        let homol_path = joinpath project_path ''Homol'' in
        if \<not> exists (files w) homol_path
        then (Raised (FileNotFoundError (''Homol path '' @ path_str homol_path @ '' does not exist'')), w)
        else
          (case glob_paths env (files w) project_path img_pattern of
             Inl e \<Rightarrow> (Raised e, w)
           | Inr found \<Rightarrow>
               let images = sort found;
                   matches_dir = joinpath project_path ''match_figs''
               in (case mkdir_parents_exist_ok matches_dir (files w) of
                     Inl e \<Rightarrow> (Raised e, w)
                   | Inr f1 \<Rightarrow>
                       let w1 = w\<lparr>files := f1\<rparr> in
                       if \<not> run_parallel
                       then sequential_loop env project_path homol_path matches_dir kwargs
                              (combinations2 images) w1
                       else pool_run env
                              (parallel_params project_path homol_path matches_dir images) w1)))"

section \<open>The layout the specification gives\<close>

text \<open>
  The match record of a pair is \<^verbatim>\<open><project_dir>/Homol/Pastis<i0.name>/<i1.name>.txt\<close> and
  its visualization artifact is \<^verbatim>\<open><project_dir>/match_figs/matches_<i0.name>-<i1.name>.png\<close>.
  These definitions follow the specification's words; the theorems below compare them
  with what the code computes.
\<close>

definition match_record_layout :: "path \<Rightarrow> string \<Rightarrow> string \<Rightarrow> path" where
  "match_record_layout project_dir n0 n1 = project_dir @ [''Homol'', ''Pastis'' @ n0, n1 @ ''.txt'']"

definition artifact_layout :: "path \<Rightarrow> string \<Rightarrow> string \<Rightarrow> path" where
  "artifact_layout project_dir n0 n1 = project_dir @ [''match_figs'', ''matches_'' @ n0 @ ''-'' @ n1 @ ''.png'']"

definition sequential_call :: "path \<Rightarrow> (string \<times> 'v) list \<Rightarrow> path \<times> path \<Rightarrow> 'v render_call" where
  "sequential_call project_dir kwargs pr =
     \<lparr>pos_args = [match_record_layout project_dir (name (fst pr)) (name (snd pr)), project_dir],
      kw_args = [(''i0_name'', StrV (name (fst pr))),
                 (''i1_name'', StrV (name (snd pr))),
                 (''out'', PathV (artifact_layout project_dir (name (fst pr)) (name (snd pr))))]
                @ map (\<lambda>(k, v). (k, OptV v)) kwargs\<rparr>"

definition parallel_task :: "path \<Rightarrow> path \<times> path \<Rightarrow> 'v render_call" where
  "parallel_task project_dir pr =
     \<lparr>pos_args = [match_record_layout project_dir (name (fst pr)) (name (snd pr)),
                  project_dir,
                  artifact_layout project_dir (name (fst pr)) (name (snd pr))],
      kw_args = []\<rparr>"

abbreviation homol_of :: "path \<Rightarrow> path" where
  "homol_of project_dir \<equiv> joinpath project_dir ''Homol''"

abbreviation figs_of :: "path \<Rightarrow> path" where
  "figs_of project_dir \<equiv> joinpath project_dir ''match_figs''"

section \<open>A concrete setting\<close>

text \<open>
  A small project used to run the definitions: the directory \<^verbatim>\<open>proj\<close> with its
  \<^verbatim>\<open>Homol\<close> subdirectory, a renderer that writes nothing and returns, a glob that
  returns a fixed listing (the image files themselves are left out of the file system:
  the function never opens them), and a pool that records the tasks it is given as run
  in order.
\<close>

definition demo_fs :: fs where
  "demo_fs = [[''proj''] \<mapsto> Dir, [''proj'', ''Homol''] \<mapsto> Dir]"

definition demo_env :: "path list \<Rightarrow> nat collaborators" where
  "demo_env listing =
     \<lparr>glob_paths = (\<lambda>f p pat. Inr listing),
      render = (\<lambda>c f. (None, f)),
      pool_starmap = (\<lambda>params w. (Returned, w\<lparr>calls := calls w @ params\<rparr>))\<rparr>"

definition demo_world :: "fs \<Rightarrow> nat world" where
  "demo_world f = \<lparr>files = f, stdout = [], calls = []\<rparr>"

text \<open>The same project with three images, listed out of order, and the match record of
  the pair \<^verbatim>\<open>(a.tif, b.tif)\<close> only.\<close>

definition demo_fs_ab :: fs where
  "demo_fs_ab = demo_fs([''proj'', ''Homol'', ''Pastisa.tif''] \<mapsto> Dir,
                        [''proj'', ''Homol'', ''Pastisa.tif'', ''b.tif.txt''] \<mapsto> File)"

definition demo_listing :: "path list" where
  "demo_listing = [[''proj'', ''b.tif''], [''proj'', ''c.tif''], [''proj'', ''a.tif'']]"

text \<open>Four images of one directory whose names hold hyphens, and two images in two
  subdirectories, as a pattern such as \<^verbatim>\<open>*/*.tif\<close> finds them.\<close>

definition hyphen_listing :: "path list" where
  "hyphen_listing = [[''proj'', ''c.tif''], [''proj'', ''a.tif-b.tif''],
                     [''proj'', ''b.tif-c.tif''], [''proj'', ''a.tif'']]"

definition nested_listing :: "path list" where
  "nested_listing = [[''proj'', ''y'', ''a.tif''], [''proj'', ''x'', ''b.tif'']]"

text \<open>The project with a regular file where the output directory should be.\<close>

definition demo_fs_blocked :: fs where
  "demo_fs_blocked = demo_fs([''proj'', ''match_figs''] \<mapsto> File)"

text \<open>A listing of two images.\<close>

definition demo_pair_listing :: "path list" where
  "demo_pair_listing = [[''proj'', ''b.tif''], [''proj'', ''a.tif'']]"

text \<open>The project with three images and the match records of all three pairs.\<close>

definition demo_fs_all :: fs where
  "demo_fs_all = demo_fs_ab([''proj'', ''Homol'', ''Pastisa.tif'', ''c.tif.txt''] \<mapsto> File,
                            [''proj'', ''Homol'', ''Pastisb.tif''] \<mapsto> Dir,
                            [''proj'', ''Homol'', ''Pastisb.tif'', ''c.tif.txt''] \<mapsto> File)"

section \<open>Auxiliary facts\<close>

subsection \<open>Pair enumeration\<close>

lemma length_combinations2:
  "2 * length (combinations2 xs) = length xs * (length xs - 1)"
proof (induction xs)
  case Nil
  then show ?case by simp
next
  case (Cons x xs)
  then show ?case by (cases "length xs") (simp_all add: algebra_simps)
qed

lemma length_combinations2_div:
  "length (combinations2 xs) = length xs * (length xs - 1) div 2"
  using length_combinations2 [of xs] by linarith

lemma set_combinations2:
  "set (combinations2 xs) = {(xs ! i, xs ! j) | i j. i < j \<and> j < length xs}"
proof (induction xs)
  case Nil
  then show ?case by simp
next
  case (Cons x xs)
  have "{((x # xs) ! i, (x # xs) ! j) | i j. i < j \<and> j < length (x # xs)}
        = Pair x ` set xs \<union> {(xs ! i, xs ! j) | i j. i < j \<and> j < length xs}"
    (is "?L = ?R")
  proof (intro set_eqI iffI)
    fix p assume "p \<in> ?L"
    then obtain i j where ij: "i < j" "j < Suc (length xs)" "p = ((x # xs) ! i, (x # xs) ! j)"
      by auto
    then obtain j' where j': "j = Suc j'" by (cases j) auto
    show "p \<in> ?R"
    proof (cases i)
      case 0
      with ij j' show ?thesis by auto
    next
      case (Suc i')
      with ij j' have "i' < j'" "j' < length xs" "p = (xs ! i', xs ! j')" by auto
      then show ?thesis by blast
    qed
  next
    fix p assume "p \<in> ?R"
    then consider (a) y where "y \<in> set xs" "p = (x, y)"
      | (b) i j where "i < j" "j < length xs" "p = (xs ! i, xs ! j)" by auto
    then show "p \<in> ?L"
    proof cases
      case a
      then obtain k where "k < length xs" "xs ! k = y" by (auto simp: in_set_conv_nth)
      then have "0 < Suc k \<and> Suc k < length (x # xs) \<and> p = ((x # xs) ! 0, (x # xs) ! Suc k)"
        using a by simp
      then show ?thesis by blast
    next
      case b
      then have "Suc i < Suc j \<and> Suc j < length (x # xs) \<and> p = ((x # xs) ! Suc i, (x # xs) ! Suc j)"
        by simp
      then show ?thesis by blast
    qed
  qed
  with Cons show ?case by simp
qed

lemma combinations2_members:
  "(a, b) \<in> set (combinations2 xs) \<Longrightarrow> a \<in> set xs \<and> b \<in> set xs"
  by (induction xs) auto

lemma distinct_combinations2:
  "distinct xs \<Longrightarrow> distinct (combinations2 xs)"
  by (induction xs) (auto simp: distinct_map inj_on_def dest: combinations2_members)

lemma combinations2_sorted_less:
  "sorted xs \<Longrightarrow> distinct xs \<Longrightarrow> (a, b) \<in> set (combinations2 xs) \<Longrightarrow> a < b"
  by (induction xs) (auto dest: combinations2_members simp: less_le)

lemma combinations2_map:
  "combinations2 (map f xs) = map (map_prod f f) (combinations2 xs)"
  by (induction xs) auto

subsection \<open>The sequential loop and the parallel tasks\<close>

lemma files_print_line [simp]: "files (print_line s w) = files w"
  and calls_print_line [simp]: "calls (print_line s w) = calls w"
  and stdout_print_line [simp]: "stdout (print_line s w) = stdout w @ [s]"
  by (simp_all add: print_line_def)

lemma process_pair_missing:
  assumes "\<not> exists (files w) (match_record_layout project_dir (name i0) (name i1))"
  shows "process_pair env project_dir (homol_of project_dir) (figs_of project_dir) kwargs (i0, i1) w =
           (Raised (FileNotFoundError (''Matches file ''
                      @ path_str (match_record_layout project_dir (name i0) (name i1))
                      @ '' does not exist'')),
            print_line (''Exporting matches between '' @ name i0 @ '' and '' @ name i1) w)"
  using assms by (simp add: process_pair_def match_record_layout_def joinpath_def Let_def)

lemma process_pair_returned:
  assumes "process_pair env project_dir (homol_of project_dir) (figs_of project_dir) kwargs pr w = (Returned, w')"
  shows "calls w' = calls w @ [sequential_call project_dir kwargs pr]
         \<and> exists (files w) (match_record_layout project_dir (name (fst pr)) (name (snd pr)))"
  using assms
  by (cases pr)
     (auto simp: process_pair_def call_render_def sequential_call_def match_record_layout_def
        artifact_layout_def joinpath_def Let_def
        split: if_splits prod.splits option.splits outcome.splits)

lemma process_pair_calls:
  "calls (snd (process_pair env project_dir (homol_of project_dir) (figs_of project_dir) kwargs pr w)) = calls w
   \<or> calls (snd (process_pair env project_dir (homol_of project_dir) (figs_of project_dir) kwargs pr w))
       = calls w @ [sequential_call project_dir kwargs pr]"
  by (cases pr)
     (auto simp: process_pair_def call_render_def sequential_call_def match_record_layout_def
        artifact_layout_def joinpath_def Let_def
        split: if_splits prod.splits option.splits outcome.splits)

lemma sequential_loop_append:
  "sequential_loop env pp hp md kwargs (ps @ qs) w =
     (case sequential_loop env pp hp md kwargs ps w of
        (Raised e, w') \<Rightarrow> (Raised e, w')
      | (Returned, w') \<Rightarrow> sequential_loop env pp hp md kwargs qs w')"
  by (induction ps arbitrary: w) (auto split: prod.splits outcome.splits)

lemma sequential_loop_returned:
  assumes "sequential_loop env project_dir (homol_of project_dir) (figs_of project_dir) kwargs ps w = (Returned, w')"
  shows "calls w' = calls w @ map (sequential_call project_dir kwargs) ps"
  using assms
proof (induction ps arbitrary: w)
  case Nil
  then show ?case by simp
next
  case (Cons p ps)
  then obtain w1 where
    p: "process_pair env project_dir (homol_of project_dir) (figs_of project_dir) kwargs p w = (Returned, w1)"
    and r: "sequential_loop env project_dir (homol_of project_dir) (figs_of project_dir) kwargs ps w1 = (Returned, w')"
    by (auto split: prod.splits outcome.splits)
  from Cons.IH [OF r] process_pair_returned [OF p] show ?case by simp
qed

lemma sequential_loop_calls:
  "\<exists>k \<le> length ps.
     calls (snd (sequential_loop env project_dir (homol_of project_dir) (figs_of project_dir) kwargs ps w))
       = calls w @ map (sequential_call project_dir kwargs) (take k ps)"
proof (induction ps arbitrary: w)
  case Nil
  then show ?case by simp
next
  case (Cons p ps)
  obtain r w1 where
    p: "process_pair env project_dir (homol_of project_dir) (figs_of project_dir) kwargs p w = (r, w1)"
    by (cases "process_pair env project_dir (homol_of project_dir) (figs_of project_dir) kwargs p w")
  show ?case
  proof (cases r)
    case Returned
    with p process_pair_returned [of env project_dir kwargs p w w1]
    have c: "calls w1 = calls w @ [sequential_call project_dir kwargs p]" by simp
    from Cons.IH [of w1] obtain k where
      k: "k \<le> length ps"
         "calls (snd (sequential_loop env project_dir (homol_of project_dir) (figs_of project_dir) kwargs ps w1))
            = calls w1 @ map (sequential_call project_dir kwargs) (take k ps)"
      by blast
    have "Suc k \<le> length (p # ps)" using k by simp
    moreover have "calls (snd (sequential_loop env project_dir (homol_of project_dir) (figs_of project_dir) kwargs (p # ps) w))
            = calls w @ map (sequential_call project_dir kwargs) (take (Suc k) (p # ps))"
      using p Returned k c by simp
    ultimately show ?thesis by blast
  next
    case (Raised e)
    from process_pair_calls [of env project_dir kwargs p w] p
    have "calls w1 = calls w \<or> calls w1 = calls w @ [sequential_call project_dir kwargs p]" by simp
    then show ?thesis
    proof
      assume "calls w1 = calls w"
      then have "calls (snd (sequential_loop env project_dir (homol_of project_dir) (figs_of project_dir) kwargs (p # ps) w))
            = calls w @ map (sequential_call project_dir kwargs) (take 0 (p # ps))"
        using p Raised by simp
      then show ?thesis by blast
    next
      assume "calls w1 = calls w @ [sequential_call project_dir kwargs p]"
      then have "calls (snd (sequential_loop env project_dir (homol_of project_dir) (figs_of project_dir) kwargs (p # ps) w))
            = calls w @ map (sequential_call project_dir kwargs) (take (Suc 0) (p # ps))"
        using p Raised by simp
      moreover have "Suc 0 \<le> length (p # ps)" by simp
      ultimately show ?thesis by blast
    qed
  qed
qed

lemma parallel_params_layout:
  "parallel_params project_dir (homol_of project_dir) (figs_of project_dir) images =
     map (parallel_task project_dir) (combinations2 images)"
  by (auto simp: parallel_params_def parallel_task_def match_record_layout_def artifact_layout_def
        joinpath_def)

lemma show_micmac_matches_run:
  assumes "exists (files w) project_dir" and "exists (files w) (homol_of project_dir)"
    and "glob_paths env (files w) project_dir img_pattern = Inr found"
    and "mkdir_parents_exist_ok (figs_of project_dir) (files w) = Inr f1"
  shows "show_micmac_matches env project_dir img_pattern run_parallel kwargs w =
           (if \<not> run_parallel
            then sequential_loop env project_dir (homol_of project_dir) (figs_of project_dir) kwargs
                   (combinations2 (sort found)) (w\<lparr>files := f1\<rparr>)
            else pool_run env (map (parallel_task project_dir) (combinations2 (sort found)))
                   (w\<lparr>files := f1\<rparr>))"
  using assms by (simp add: show_micmac_matches_def Let_def parallel_params_layout)


declare mkdir_parents_exist_ok.simps [simp del]

lemma os_mkdir_Inr:
  "os_mkdir p f = Inr f' \<Longrightarrow> lookup f p = None \<and> is_dir f (parent p) \<and> f' = f(p \<mapsto> Dir)"
  by (auto simp: os_mkdir_def is_dir_def split: if_splits option.splits kind.splits)

lemma is_dir_after_os_mkdir: "os_mkdir p f = Inr f' \<Longrightarrow> is_dir f' p"
  by (auto simp: is_dir_def lookup_def dest: os_mkdir_Inr)

lemma mkdir_existing_dir:
  assumes "is_dir f p"
  shows "mkdir_parents_exist_ok p f = Inr f"
proof -
  from assms have "os_mkdir p f = Inl (FileExistsError (path_str p))"
    by (simp add: os_mkdir_def is_dir_def)
  with assms show ?thesis
    by (subst mkdir_parents_exist_ok.simps) simp
qed

lemma mkdir_result_is_dir:
  assumes "mkdir_parents_exist_ok p f = Inr f'"
  shows "is_dir f' p"
  using assms
  by (subst (asm) mkdir_parents_exist_ok.simps)
     (auto split: sum.splits error.splits if_splits dest: is_dir_after_os_mkdir)



lemma mkdir_creates:
  assumes "is_dir f base"
    and "\<forall>s. s \<noteq> [] \<and> prefix s rest \<longrightarrow> lookup f (base @ s) = None"
  shows "mkdir_parents_exist_ok (base @ rest) f =
           Inr (\<lambda>q. if \<exists>s. s \<noteq> [] \<and> prefix s rest \<and> q = base @ s then Some Dir else f q)"
  using assms(2)
proof (induction rest rule: rev_induct)
  case Nil
  have "(\<lambda>q. if \<exists>s. s \<noteq> [] \<and> prefix s [] \<and> q = base @ s then Some Dir else f q) = f"
    by auto
  with mkdir_existing_dir [OF assms(1)] show ?case by simp
next
  case (snoc x rest)
  let ?p = "base @ rest @ [x]"
  let ?g = "\<lambda>q. if \<exists>s. s \<noteq> [] \<and> prefix s rest \<and> q = base @ s then Some Dir else f q"
  let ?h = "\<lambda>q. if \<exists>s. s \<noteq> [] \<and> prefix s (rest @ [x]) \<and> q = base @ s then Some Dir else f q"
  have "rest @ [x] \<noteq> [] \<and> prefix (rest @ [x]) (rest @ [x])" by simp
  with snoc.prems have none: "lookup f ?p = None" by blast
  have par: "parent ?p = base @ rest" by (simp add: parent_def butlast_append)
  have pne: "parent ?p \<noteq> ?p" by (simp add: par)
  have upd: "?g(?p \<mapsto> Dir) = ?h"
  proof
    fix q
    show "(?g(?p \<mapsto> Dir)) q = ?h q"
    proof (cases "q = ?p")
      case True
      have "rest @ [x] \<noteq> [] \<and> prefix (rest @ [x]) (rest @ [x]) \<and> q = base @ (rest @ [x])"
        using True by simp
      then have "\<exists>s. s \<noteq> [] \<and> prefix s (rest @ [x]) \<and> q = base @ s" by blast
      with True show ?thesis by simp
    next
      case False
      have "(\<exists>s. s \<noteq> [] \<and> prefix s rest \<and> q = base @ s)
            = (\<exists>s. s \<noteq> [] \<and> prefix s (rest @ [x]) \<and> q = base @ s)"
        using False by auto
      with False show ?thesis by simp
    qed
  qed
  show ?case
  proof (cases "rest = []")
    case True
    with assms(1) none have "os_mkdir ?p f = Inr (f(?p \<mapsto> Dir))"
      by (simp add: os_mkdir_def is_dir_def parent_def butlast_append)
    moreover have "?g = f" using True by auto
    ultimately have "mkdir_parents_exist_ok ?p f = Inr ?h"
      using upd by (subst mkdir_parents_exist_ok.simps) simp
    then show ?thesis by simp
  next
    case False
    then have "rest \<noteq> [] \<and> prefix rest (rest @ [x])" by simp
    with snoc.prems have pn: "lookup f (base @ rest) = None" by blast
    with none par have om: "os_mkdir ?p f = Inl (FileNotFoundError (path_str ?p))"
      by (simp add: os_mkdir_def)
    have "\<forall>s. s \<noteq> [] \<and> prefix s rest \<longrightarrow> lookup f (base @ s) = None"
      using snoc.prems by auto
    from snoc.IH [OF this] have rec: "mkdir_parents_exist_ok (base @ rest) f = Inr ?g" .
    have "\<not> (\<exists>s. s \<noteq> [] \<and> prefix s rest \<and> ?p = base @ s)"
      by (auto dest: prefix_length_le)
    then have gp: "?g ?p = f ?p" by simp
    have "?p \<noteq> []" by simp
    with none gp have l1: "lookup ?g ?p = None" by (simp add: lookup_def)
    have "rest \<noteq> [] \<and> prefix rest rest \<and> base @ rest = base @ rest" using False by simp
    then have "\<exists>s. s \<noteq> [] \<and> prefix s rest \<and> base @ rest = base @ s" by blast
    then have "?g (base @ rest) = Some Dir" by simp
    then have l2: "lookup ?g (parent ?p) = Some Dir" using False by (simp add: lookup_def par)
    from l1 l2 have "os_mkdir ?p ?g = Inr (?g(?p \<mapsto> Dir))" by (simp add: os_mkdir_def)
    with om pne rec par upd have "mkdir_parents_exist_ok ?p f = Inr ?h"
      by (subst mkdir_parents_exist_ok.simps) simp
    then show ?thesis by simp
  qed
qed

lemma join_sep_snoc: "xs \<noteq> [] \<Longrightarrow> join_sep (xs @ [y]) = join_sep xs @ ''/'' @ y"
  by (induction xs rule: join_sep.induct) auto

lemma path_str_snoc: "p \<noteq> [] \<Longrightarrow> path_str (p @ [s]) = path_str p @ ''/'' @ s"
  by (simp add: path_str_def join_sep_snoc)

lemma path_str_snoc2: "p \<noteq> [] \<Longrightarrow> path_str (p @ [a, b]) = path_str p @ ''/'' @ a @ ''/'' @ b"
  using path_str_snoc [of "p @ [a]" b] path_str_snoc [of p a] by simp

lemma path_str_snoc3:
  "p \<noteq> [] \<Longrightarrow> path_str (p @ [a, b, c]) = path_str p @ ''/'' @ a @ ''/'' @ b @ ''/'' @ c"
  using path_str_snoc [of "p @ [a, b]" c] path_str_snoc2 [of p a b] by simp

lemma show_micmac_matches_sequential_calls:
  assumes "glob_paths env (files w) project_dir img_pattern = Inr found"
  shows "\<exists>k \<le> length (combinations2 (sort found)).
           calls (snd (show_micmac_matches env project_dir img_pattern False kwargs w))
             = calls w @ map (sequential_call project_dir kwargs) (take k (combinations2 (sort found)))"
proof (cases "exists (files w) project_dir \<and> exists (files w) (homol_of project_dir)")
  case False
  then have "calls (snd (show_micmac_matches env project_dir img_pattern False kwargs w))
             = calls w @ map (sequential_call project_dir kwargs) (take 0 (combinations2 (sort found)))"
    by (auto simp: show_micmac_matches_def Let_def)
  then show ?thesis by blast
next
  case True
  show ?thesis
  proof (cases "mkdir_parents_exist_ok (figs_of project_dir) (files w)")
    case (Inl e)
    with True assms
    have "calls (snd (show_micmac_matches env project_dir img_pattern False kwargs w))
             = calls w @ map (sequential_call project_dir kwargs) (take 0 (combinations2 (sort found)))"
      by (simp add: show_micmac_matches_def Let_def)
    then show ?thesis by blast
  next
    case (Inr f1)
    from True have a: "exists (files w) project_dir" and b: "exists (files w) (homol_of project_dir)"
      by simp_all
    from show_micmac_matches_run [OF a b assms Inr, of False kwargs]
      sequential_loop_calls [of "combinations2 (sort found)" env project_dir kwargs "w\<lparr>files := f1\<rparr>"]
    show ?thesis by simp
  qed
qed

subsection \<open>Output names\<close>

lemma joined_names_eq:
  assumes "na @ ''-'' @ nb = nc @ ''-'' @ nd"
    and "\<not> prefix (nc @ ''-'') na" and "\<not> prefix (na @ ''-'') nc"
  shows "na = nc \<and> nb = nd"
proof -
  from assms(1) obtain us where
    us: "na = nc @ us \<and> us @ ''-'' @ nb = ''-'' @ nd \<or> na @ us = nc \<and> ''-'' @ nb = us @ ''-'' @ nd"
    by (auto simp: append_eq_append_conv2)
  have "us = []"
  proof (rule ccontr)
    assume ne: "us \<noteq> []"
    from us show False
    proof
      assume a: "na = nc @ us \<and> us @ ''-'' @ nb = ''-'' @ nd"
      with ne obtain t where "us = CHR ''-'' # t" by (cases us) auto
      with a have "na = (nc @ ''-'') @ t" by simp
      then have "prefix (nc @ ''-'') na" by (metis prefixI)
      with assms(2) show False by simp
    next
      assume a: "na @ us = nc \<and> ''-'' @ nb = us @ ''-'' @ nd"
      with ne obtain t where "us = CHR ''-'' # t" by (cases us) auto
      with a have "nc = (na @ ''-'') @ t" by auto
      then have "prefix (na @ ''-'') nc" by (metis prefixI)
      with assms(3) show False by simp
    qed
  qed
  with us show ?thesis by auto
qed

lemma artifact_layout_inj:
  assumes "artifact_layout project_dir na nb = artifact_layout project_dir nc nd"
    and "\<not> prefix (nc @ ''-'') na" and "\<not> prefix (na @ ''-'') nc"
  shows "na = nc \<and> nb = nd"
proof -
  from assms(1) have "(na @ ''-'' @ nb) @ ''.png'' = (nc @ ''-'' @ nd) @ ''.png''"
    by (simp add: artifact_layout_def)
  then have "na @ ''-'' @ nb = nc @ ''-'' @ nd" by (simp only: append_same_eq)
  from joined_names_eq [OF this assms(2,3)] show ?thesis .
qed

lemma artifact_of_pair_inj_on:
  assumes "distinct (map name images)"
    and "\<forall>a\<in>set images. \<forall>b\<in>set images. \<not> prefix (name a @ ''-'') (name b)"
  shows "inj_on (\<lambda>pr. artifact_layout project_dir (name (fst pr)) (name (snd pr)))
           (set (combinations2 images))"
proof (rule inj_onI)
  fix p q
  assume p: "p \<in> set (combinations2 images)" and q: "q \<in> set (combinations2 images)"
    and e: "artifact_layout project_dir (name (fst p)) (name (snd p))
            = artifact_layout project_dir (name (fst q)) (name (snd q))"
  from p have pm: "fst p \<in> set images" "snd p \<in> set images"
    using combinations2_members [of "fst p" "snd p" images] by simp_all
  from q have qm: "fst q \<in> set images" "snd q \<in> set images"
    using combinations2_members [of "fst q" "snd q" images] by simp_all
  from assms(2) pm qm have "\<not> prefix (name (fst q) @ ''-'') (name (fst p))"
    and "\<not> prefix (name (fst p) @ ''-'') (name (fst q))" by blast+
  from artifact_layout_inj [OF e this]
  have n: "name (fst p) = name (fst q)" "name (snd p) = name (snd q)" by simp_all
  from assms(1) have "inj_on name (set images)" by (simp add: distinct_map)
  with n pm qm have "fst p = fst q" "snd p = snd q" by (auto dest: inj_onD)
  then show "p = q" by (simp add: prod_eq_iff)
qed

lemma out_of_sequential_call:
  "map_of (kw_args (sequential_call project_dir kwargs pr)) ''out''
     = Some (PathV (artifact_layout project_dir (name (fst pr)) (name (snd pr))))"
  by (simp add: sequential_call_def)

lemma out_of_parallel_task:
  "pos_args (parallel_task project_dir pr) ! 2
     = artifact_layout project_dir (name (fst pr)) (name (snd pr))"
  by (simp add: parallel_task_def)

subsection \<open>Order of the images\<close>

lemma same_parent_le: "d @ [a] \<le> d @ [b] \<longleftrightarrow> a \<le> (b :: string)"
  by (induction d) (auto simp: le_less)

lemma path_of_parent_name: "p \<noteq> [] \<Longrightarrow> parent p = d \<Longrightarrow> p = d @ [name p]"
  by (auto simp: parent_def name_def)

lemma sorted_names:
  assumes "sorted xs" and "\<forall>p\<in>set xs. p \<noteq> [] \<and> parent p = d"
  shows "sorted (map name xs)"
  using assms
proof (induction xs)
  case Nil
  then show ?case by simp
next
  case (Cons p xs)
  have "name p \<le> name q" if "q \<in> set xs" for q
  proof -
    from Cons.prems that have "p \<le> q" by auto
    moreover from Cons.prems have "p = d @ [name p]" by (auto intro: path_of_parent_name)
    moreover from Cons.prems that have "q = d @ [name q]" by (auto intro: path_of_parent_name)
    ultimately show ?thesis using same_parent_le [of d "name p" "name q"] by simp
  qed
  with Cons show ?case by auto
qed

lemma process_pair_env:
  "render env' = render env \<Longrightarrow> process_pair env' pp hp md kwargs pr w = process_pair env pp hp md kwargs pr w"
  by (simp add: process_pair_def call_render_def Let_def split: prod.splits)

lemma sequential_loop_env:
  "render env' = render env \<Longrightarrow>
     sequential_loop env' pp hp md kwargs ps w = sequential_loop env pp hp md kwargs ps w"
proof (induction ps arbitrary: w)
  case Nil
  then show ?case by simp
next
  case (Cons p ps)
  from process_pair_env [OF Cons.prems, of pp hp md kwargs p w] Cons.IH [OF Cons.prems]
  show ?case by (simp split: prod.splits outcome.splits)
qed

lemma show_micmac_matches_env:
  assumes "glob_paths env (files w) project_dir img_pattern = Inr found"
    and "glob_paths env' (files w) project_dir img_pattern = Inr found'"
    and "sort found = sort found'"
    and "render env' = render env" and "pool_starmap env' = pool_starmap env"
  shows "show_micmac_matches env' project_dir img_pattern run_parallel kwargs w
               = show_micmac_matches env project_dir img_pattern run_parallel kwargs w"
proof (cases "exists (files w) project_dir \<and> exists (files w) (homol_of project_dir)")
  case False
  then show ?thesis by (auto simp: show_micmac_matches_def Let_def)
next
  case True
  then have a: "exists (files w) project_dir" and b: "exists (files w) (homol_of project_dir)"
    by simp_all
  show ?thesis
  proof (cases "mkdir_parents_exist_ok (figs_of project_dir) (files w)")
    case (Inl e)
    with a b assms show ?thesis by (simp add: show_micmac_matches_def Let_def)
  next
    case (Inr f1)
    from show_micmac_matches_run [OF a b assms(1) Inr, of run_parallel kwargs]
      show_micmac_matches_run [OF a b assms(2) Inr, of run_parallel kwargs]
      assms(3-5) sequential_loop_env [OF assms(4)]
    show ?thesis by (simp add: pool_run_def)
  qed
qed

subsection \<open>What the renderer preserves, and the output directory\<close>

lemma call_render_preserves:
  assumes "\<forall>c f r f'. render env c f = (r, f') \<longrightarrow> P f \<longrightarrow> P f'" and "P (files w)"
  shows "P (files (snd (call_render env c w)))"
proof -
  obtain r f' where r: "render env c (files w) = (r, f')" by (cases "render env c (files w)")
  with assms have "P f'" by blast
  with r show ?thesis by (cases r) (simp_all add: call_render_def)
qed

lemma process_pair_files:
  "files (snd (process_pair env pp hp md kwargs pr w)) = files w
   \<or> (\<exists>c s. files (snd (process_pair env pp hp md kwargs pr w))
               = files (snd (call_render env c (print_line s w))))"
proof -
  obtain i0 i1 where pr: "pr = (i0, i1)" by (cases pr)
  let ?w1 = "print_line (''Exporting matches between '' @ name i0 @ '' and '' @ name i1) w"
  let ?mp = "joinpath (joinpath hp (''Pastis'' @ name i0)) (name i1 @ ''.txt'')"
  let ?c = "\<lparr>pos_args = [?mp, pp],
            kw_args = [(''i0_name'', StrV (name i0)), (''i1_name'', StrV (name i1)),
                       (''out'', PathV (joinpath md (''matches_'' @ name i0 @ ''-'' @ name i1 @ ''.png'')))]
                      @ map (\<lambda>(k, v). (k, OptV v)) kwargs\<rparr>"
  show ?thesis
  proof (cases "\<not> exists (files ?w1) ?mp \<or> list_ex (\<lambda>k. k \<in> set explicit_keywords) (map fst kwargs)")
    case True
    then have "files (snd (process_pair env pp hp md kwargs pr w)) = files w"
      unfolding pr process_pair_def Let_def by auto
    then show ?thesis by blast
  next
    case False
    obtain r w2 where cr: "call_render env ?c ?w1 = (r, w2)" by (cases "call_render env ?c ?w1")
    from False have "process_pair env pp hp md kwargs pr w =
        (case call_render env ?c ?w1 of
           (Returned, w2) \<Rightarrow> (Returned, print_line ''Done.'' w2)
         | (Raised e, w2) \<Rightarrow> (Raised e, w2))"
      unfolding pr process_pair_def Let_def by simp
    with cr have "files (snd (process_pair env pp hp md kwargs pr w)) = files (snd (call_render env ?c ?w1))"
      by (cases r) simp_all
    then show ?thesis by blast
  qed
qed

lemma process_pair_preserves:
  assumes "\<forall>c f r f'. render env c f = (r, f') \<longrightarrow> P f \<longrightarrow> P f'" and "P (files w)"
  shows "P (files (snd (process_pair env pp hp md kwargs pr w)))"
proof -
  from process_pair_files [of env pp hp md kwargs pr w]
  show ?thesis
  proof
    assume "files (snd (process_pair env pp hp md kwargs pr w)) = files w"
    with assms(2) show ?thesis by simp
  next
    assume "\<exists>c s. files (snd (process_pair env pp hp md kwargs pr w))
               = files (snd (call_render env c (print_line s w)))"
    then obtain c s where e: "files (snd (process_pair env pp hp md kwargs pr w))
               = files (snd (call_render env c (print_line s w)))" by blast
    from assms(2) have "P (files (print_line s w))" by simp
    from call_render_preserves [OF assms(1) this, of c] e show ?thesis by simp
  qed
qed

lemma sequential_loop_preserves:
  assumes "\<forall>c f r f'. render env c f = (r, f') \<longrightarrow> P f \<longrightarrow> P f'" and "P (files w)"
  shows "P (files (snd (sequential_loop env pp hp md kwargs ps w)))"
  using assms(2)
proof (induction ps arbitrary: w)
  case Nil
  then show ?case by simp
next
  case (Cons p ps)
  from process_pair_preserves [OF assms(1) Cons.prems, of pp hp md kwargs p]
  have "P (files (snd (process_pair env pp hp md kwargs p w)))" .
  with Cons.IH show ?case
    by (cases "process_pair env pp hp md kwargs p w") (auto split: outcome.splits)
qed

lemma mkdir_figs:
  assumes "is_dir f project_dir" and "lookup f (figs_of project_dir) \<noteq> Some File"
  shows "mkdir_parents_exist_ok (figs_of project_dir) f = Inr (f(figs_of project_dir \<mapsto> Dir))"
proof (cases "lookup f (figs_of project_dir)")
  case None
  then have "\<forall>s. s \<noteq> [] \<and> prefix s [''match_figs''] \<longrightarrow> lookup f (project_dir @ s) = None"
    by (auto simp: joinpath_def prefix_Cons)
  from mkdir_creates [OF assms(1) this]
  have "mkdir_parents_exist_ok (project_dir @ [''match_figs'']) f
          = Inr (\<lambda>q. if \<exists>s. s \<noteq> [] \<and> prefix s [''match_figs''] \<and> q = project_dir @ s
                      then Some Dir else f q)" .
  moreover have "(\<lambda>q. if \<exists>s. s \<noteq> [] \<and> prefix s [''match_figs''] \<and> q = project_dir @ s
                      then Some Dir else f q) = f(project_dir @ [''match_figs''] \<mapsto> Dir)"
    by (auto simp: fun_eq_iff prefix_Cons)
  ultimately show ?thesis by (simp add: joinpath_def)
next
  case (Some k)
  with assms(2) have d: "is_dir f (figs_of project_dir)" by (cases k) (simp_all add: is_dir_def)
  then have "f (figs_of project_dir) = Some Dir" by (simp add: is_dir_def lookup_def joinpath_def)
  then have "f(figs_of project_dir \<mapsto> Dir) = f" by (rule fun_upd_idem)
  with mkdir_existing_dir [OF d] show ?thesis by simp
qed

lemma combinations2_short: "length xs < 2 \<Longrightarrow> combinations2 xs = []"
  by (cases xs rule: combinations2.cases) (auto simp: length_Suc_conv)

subsection \<open>Runs that return\<close>

lemma process_pair_call:
  assumes "exists (files w) (match_record_layout project_dir (name i0) (name i1))"
    and "\<not> list_ex (\<lambda>k. k \<in> set explicit_keywords) (map fst kwargs)"
  shows "calls (snd (process_pair env project_dir (homol_of project_dir) (figs_of project_dir) kwargs (i0, i1) w))
           = calls w @ [sequential_call project_dir kwargs (i0, i1)]"
proof -
  let ?w1 = "print_line (''Exporting matches between '' @ name i0 @ '' and '' @ name i1) w"
  obtain r f' where r: "render env (sequential_call project_dir kwargs (i0, i1)) (files ?w1) = (r, f')"
    by (cases "render env (sequential_call project_dir kwargs (i0, i1)) (files ?w1)")
  have "calls (snd (call_render env (sequential_call project_dir kwargs (i0, i1)) ?w1))
          = calls w @ [sequential_call project_dir kwargs (i0, i1)]"
    using r by (cases r) (simp_all add: call_render_def)
  moreover have "process_pair env project_dir (homol_of project_dir) (figs_of project_dir) kwargs (i0, i1) w
      = (case call_render env (sequential_call project_dir kwargs (i0, i1)) ?w1 of
           (Returned, w2) \<Rightarrow> (Returned, print_line ''Done.'' w2)
         | (Raised e, w2) \<Rightarrow> (Raised e, w2))"
    using assms
    by (simp add: process_pair_def Let_def sequential_call_def match_record_layout_def
          artifact_layout_def joinpath_def)
  ultimately show ?thesis
    by (cases "call_render env (sequential_call project_dir kwargs (i0, i1)) ?w1")
       (auto split: outcome.splits)
qed

lemma process_pair_completes:
  assumes "\<forall>c f. \<exists>f'. render env c f = (None, f') \<and> (\<forall>p. exists f p \<longrightarrow> exists f' p)"
    and "\<not> list_ex (\<lambda>k. k \<in> set explicit_keywords) (map fst kwargs)"
    and "exists (files w) (match_record_layout project_dir (name i0) (name i1))"
  shows "\<exists>w'. process_pair env project_dir (homol_of project_dir) (figs_of project_dir) kwargs (i0, i1) w
              = (Returned, w')
           \<and> calls w' = calls w @ [sequential_call project_dir kwargs (i0, i1)]
           \<and> (\<forall>p. exists (files w) p \<longrightarrow> exists (files w') p)"
proof -
  let ?w1 = "print_line (''Exporting matches between '' @ name i0 @ '' and '' @ name i1) w"
  let ?c = "sequential_call project_dir kwargs (i0, i1)"
  from assms(1) obtain f' where r: "render env ?c (files ?w1) = (None, f')"
    and k: "\<forall>p. exists (files ?w1) p \<longrightarrow> exists f' p" by blast
  have cr: "call_render env ?c ?w1 = (Returned, ?w1\<lparr>files := f', calls := calls ?w1 @ [?c]\<rparr>)"
    using r by (simp add: call_render_def)
  have "process_pair env project_dir (homol_of project_dir) (figs_of project_dir) kwargs (i0, i1) w
      = (case call_render env ?c ?w1 of
           (Returned, w2) \<Rightarrow> (Returned, print_line ''Done.'' w2)
         | (Raised e, w2) \<Rightarrow> (Raised e, w2))"
    using assms(2,3)
    by (simp add: process_pair_def Let_def sequential_call_def match_record_layout_def
          artifact_layout_def joinpath_def)
  with cr have "process_pair env project_dir (homol_of project_dir) (figs_of project_dir) kwargs (i0, i1) w
      = (Returned, print_line ''Done.'' (?w1\<lparr>files := f', calls := calls ?w1 @ [?c]\<rparr>))"
    by simp
  moreover have "calls (print_line ''Done.'' (?w1\<lparr>files := f', calls := calls ?w1 @ [?c]\<rparr>))
      = calls w @ [?c]" by simp
  moreover have "\<forall>p. exists (files w) p
      \<longrightarrow> exists (files (print_line ''Done.'' (?w1\<lparr>files := f', calls := calls ?w1 @ [?c]\<rparr>))) p"
    using k by simp
  ultimately show ?thesis by blast
qed

lemma sequential_loop_completes:
  assumes "\<forall>c f. \<exists>f'. render env c f = (None, f') \<and> (\<forall>p. exists f p \<longrightarrow> exists f' p)"
    and "\<not> list_ex (\<lambda>k. k \<in> set explicit_keywords) (map fst kwargs)"
    and "\<forall>pr\<in>set ps. exists (files w) (match_record_layout project_dir (name (fst pr)) (name (snd pr)))"
  shows "\<exists>w'. sequential_loop env project_dir (homol_of project_dir) (figs_of project_dir) kwargs ps w
              = (Returned, w')
           \<and> calls w' = calls w @ map (sequential_call project_dir kwargs) ps
           \<and> (\<forall>p. exists (files w) p \<longrightarrow> exists (files w') p)"
  using assms(3)
proof (induction ps arbitrary: w)
  case Nil
  then show ?case by simp
next
  case (Cons pr ps)
  obtain i0 i1 where pr: "pr = (i0, i1)" by (cases pr)
  from Cons.prems pr have "exists (files w) (match_record_layout project_dir (name i0) (name i1))"
    by simp
  from process_pair_completes [OF assms(1,2) this] obtain w1 where
    p: "process_pair env project_dir (homol_of project_dir) (figs_of project_dir) kwargs (i0, i1) w
          = (Returned, w1)"
    and c1: "calls w1 = calls w @ [sequential_call project_dir kwargs (i0, i1)]"
    and k1: "\<forall>p. exists (files w) p \<longrightarrow> exists (files w1) p" by blast
  from Cons.prems k1
  have "\<forall>pr\<in>set ps. exists (files w1) (match_record_layout project_dir (name (fst pr)) (name (snd pr)))"
    by simp
  from Cons.IH [OF this] obtain w' where
    l: "sequential_loop env project_dir (homol_of project_dir) (figs_of project_dir) kwargs ps w1
          = (Returned, w')"
    and c2: "calls w' = calls w1 @ map (sequential_call project_dir kwargs) ps"
    and k2: "\<forall>p. exists (files w1) p \<longrightarrow> exists (files w') p" by blast
  have "sequential_loop env project_dir (homol_of project_dir) (figs_of project_dir) kwargs (pr # ps) w
          = (Returned, w')"
    using p l pr by simp
  moreover have "calls w' = calls w @ map (sequential_call project_dir kwargs) (pr # ps)"
    using c1 c2 pr by simp
  moreover have "\<forall>p. exists (files w) p \<longrightarrow> exists (files w') p" using k1 k2 by simp
  ultimately show ?case by blast
qed

lemma show_micmac_matches_returned:
  assumes "glob_paths env (files w) project_dir img_pattern = Inr found"
    and "show_micmac_matches env project_dir img_pattern False kwargs w = (Returned, w')"
  shows "calls w' = calls w @ map (sequential_call project_dir kwargs) (combinations2 (sort found))"
proof (cases "exists (files w) project_dir \<and> exists (files w) (homol_of project_dir)")
  case False
  with assms(2) show ?thesis by (auto simp: show_micmac_matches_def Let_def split: if_splits)
next
  case True
  then have a: "exists (files w) project_dir" and b: "exists (files w) (homol_of project_dir)"
    by simp_all
  show ?thesis
  proof (cases "mkdir_parents_exist_ok (figs_of project_dir) (files w)")
    case (Inl e)
    with a b assms show ?thesis by (simp add: show_micmac_matches_def Let_def)
  next
    case (Inr f1)
    from show_micmac_matches_run [OF a b assms(1) Inr, of False kwargs] assms(2)
    have "sequential_loop env project_dir (homol_of project_dir) (figs_of project_dir) kwargs
            (combinations2 (sort found)) (w\<lparr>files := f1\<rparr>) = (Returned, w')" by simp
    from sequential_loop_returned [OF this] show ?thesis by simp
  qed
qed

lemma show_micmac_matches_completes:
  assumes "exists (files w) project_dir" and "exists (files w) (homol_of project_dir)"
    and "glob_paths env (files w) project_dir img_pattern = Inr found"
    and "mkdir_parents_exist_ok (figs_of project_dir) (files w) = Inr f1"
    and "\<forall>c f. \<exists>f'. render env c f = (None, f') \<and> (\<forall>p. exists f p \<longrightarrow> exists f' p)"
    and "\<not> list_ex (\<lambda>k. k \<in> set explicit_keywords) (map fst kwargs)"
    and "\<forall>pr\<in>set (combinations2 (sort found)).
           exists f1 (match_record_layout project_dir (name (fst pr)) (name (snd pr)))"
  shows "\<exists>w'. show_micmac_matches env project_dir img_pattern False kwargs w = (Returned, w')
           \<and> calls w' = calls w @ map (sequential_call project_dir kwargs) (combinations2 (sort found))"
proof -
  from assms(7)
  have "\<forall>pr\<in>set (combinations2 (sort found)).
           exists (files (w\<lparr>files := f1\<rparr>)) (match_record_layout project_dir (name (fst pr)) (name (snd pr)))"
    by simp
  from sequential_loop_completes [OF assms(5,6) this] obtain w' where
    "sequential_loop env project_dir (homol_of project_dir) (figs_of project_dir) kwargs
       (combinations2 (sort found)) (w\<lparr>files := f1\<rparr>) = (Returned, w')"
    and "calls w' = calls (w\<lparr>files := f1\<rparr>) @ map (sequential_call project_dir kwargs) (combinations2 (sort found))"
    by blast
  with show_micmac_matches_run [OF assms(1-4), of False kwargs] show ?thesis by simp
qed


lemma combinations2_sorted_le:
  "sorted xs \<Longrightarrow> (a, b) \<in> set (combinations2 xs) \<Longrightarrow> a \<le> b"
  by (induction xs) (auto dest: combinations2_members)

subsection \<open>Running the concrete setting\<close>

lemmas eval_defs =
  demo_fs_def demo_fs_ab_def demo_listing_def demo_env_def demo_world_def
  exists_def lookup_def is_dir_def joinpath_def name_def parent_def path_str_def os_mkdir_def
  print_line_def call_render_def process_pair_def explicit_keywords_def pool_run_def
  parallel_params_def match_record_layout_def artifact_layout_def sequential_call_def
  parallel_task_def Let_def

lemma demo_mkdir:
  "mkdir_parents_exist_ok [''proj'', ''match_figs''] demo_fs_ab
     = Inr (demo_fs_ab([''proj'', ''match_figs''] \<mapsto> Dir))"
  by (simp add: mkdir_parents_exist_ok.simps eval_defs)

lemma demo_sort: "sort demo_listing = [[''proj'', ''a.tif''], [''proj'', ''b.tif''], [''proj'', ''c.tif'']]"
  by (simp add: demo_listing_def)

lemma demo_mkdir_plain:
  "mkdir_parents_exist_ok [''proj'', ''match_figs''] demo_fs
     = Inr (demo_fs([''proj'', ''match_figs''] \<mapsto> Dir))"
  by (simp add: mkdir_parents_exist_ok.simps eval_defs)

lemmas eval_all = demo_fs_all_def eval_defs

lemma demo_mkdir_all:
  "mkdir_parents_exist_ok [''proj'', ''match_figs''] demo_fs_all
     = Inr (demo_fs_all([''proj'', ''match_figs''] \<mapsto> Dir))"
  by (simp add: mkdir_parents_exist_ok.simps demo_fs_all_def eval_defs)

section \<open>The precondition checks\<close>

text \<open>
  C4. A missing project directory raises FileNotFoundError; otherwise a missing Homol
  subdirectory raises FileNotFoundError. Either check comes before image discovery, the
  creation of the output directory and every pair: the state the call leaves is the state
  it found (no file changed, nothing printed, no renderer call), whatever the pattern, the
  mode, the options and the collaborators are.
\<close>

theorem precondition_checks_first:
  "(\<not> exists (files w) project_dir \<longrightarrow>
      show_micmac_matches env project_dir img_pattern run_parallel kwargs w =
        (Raised (FileNotFoundError (''Project path '' @ path_str project_dir @ '' does not exist'')), w))
   \<and> (exists (files w) project_dir \<and> \<not> exists (files w) (joinpath project_dir ''Homol'') \<longrightarrow>
      show_micmac_matches env project_dir img_pattern run_parallel kwargs w =
        (Raised (FileNotFoundError
           (''Homol path '' @ path_str (joinpath project_dir ''Homol'') @ '' does not exist'')), w))"
  by (simp add: show_micmac_matches_def Let_def)

theorem precondition_checks_first_witness:
  "\<not> exists (files (demo_world Map.empty)) [''proj'']
   \<and> show_micmac_matches (demo_env []) [''proj''] ''*.tif'' False [] (demo_world Map.empty) =
       (Raised (FileNotFoundError ''Project path proj does not exist''), demo_world Map.empty)
   \<and> exists (files (demo_world [[''proj''] \<mapsto> Dir])) [''proj'']
   \<and> \<not> exists (files (demo_world [[''proj''] \<mapsto> Dir])) (joinpath [''proj''] ''Homol'')
   \<and> show_micmac_matches (demo_env []) [''proj''] ''*.tif'' True [] (demo_world [[''proj''] \<mapsto> Dir]) =
       (Raised (FileNotFoundError ''Homol path proj/Homol does not exist''),
        demo_world [[''proj''] \<mapsto> Dir])"
proof -
  have a: "\<not> exists (files (demo_world Map.empty)) [''proj'']"
    by (simp add: demo_world_def exists_def lookup_def)
  have b: "exists (files (demo_world [[''proj''] \<mapsto> Dir])) [''proj'']
           \<and> \<not> exists (files (demo_world [[''proj''] \<mapsto> Dir])) (joinpath [''proj''] ''Homol'')"
    by (simp add: demo_world_def exists_def lookup_def joinpath_def)
  from a b
    precondition_checks_first [of "demo_world Map.empty" "[''proj'']" "demo_env []" "''*.tif''" False "[]"]
    precondition_checks_first [of "demo_world [[''proj''] \<mapsto> Dir]" "[''proj'']" "demo_env []" "''*.tif''" True "[]"]
  show ?thesis
    by (simp add: path_str_def joinpath_def)
qed

section \<open>The enumerated pairs\<close>

text \<open>
  C3. For an image set of N distinct paths, the enumeration over the sorted images has
  exactly N (N - 1) / 2 pairs; the pairs are exactly the pairs of images at positions
  i < j, so the first member strictly precedes the second in the order of the image set
  and is different from it; no pair occurs twice and no pair occurs in both orientations.
  Both branches of show_micmac_matches work on this one enumeration. The parallel call
  hands the pool exactly one task per enumerated pair, in enumeration order. The
  sequential call is the loop over the enumeration: when it returns it has made exactly
  one renderer call per enumerated pair, in enumeration order, N (N - 1) / 2 calls in
  all; and it does return when every match record is there, the renderer returns and
  removes nothing, and no rendering option clashes with a keyword of the call.
\<close>

theorem pair_enumeration:
  assumes "distinct found"
    and "exists (files w) project_dir" and "exists (files w) (joinpath project_dir ''Homol'')"
    and "glob_paths env (files w) project_dir img_pattern = Inr found"
    and "mkdir_parents_exist_ok (joinpath project_dir ''match_figs'') (files w) = Inr f1"
  shows "length (combinations2 (sort found)) = length found * (length found - 1) div 2
     \<and> set (combinations2 (sort found))
         = {(sort found ! i, sort found ! j) | i j. i < j \<and> j < length found}
     \<and> (\<forall>(i0, i1) \<in> set (combinations2 (sort found)). i0 < i1 \<and> i0 \<noteq> i1
           \<and> (i1, i0) \<notin> set (combinations2 (sort found)))
     \<and> distinct (combinations2 (sort found))
     \<and> show_micmac_matches env project_dir img_pattern True kwargs w
         = pool_run env (map (parallel_task project_dir) (combinations2 (sort found))) (w\<lparr>files := f1\<rparr>)
     \<and> show_micmac_matches env project_dir img_pattern False kwargs w
         = sequential_loop env project_dir (joinpath project_dir ''Homol'')
             (joinpath project_dir ''match_figs'') kwargs (combinations2 (sort found)) (w\<lparr>files := f1\<rparr>)
     \<and> (\<forall>w'. show_micmac_matches env project_dir img_pattern False kwargs w = (Returned, w') \<longrightarrow>
           calls w' = calls w @ map (sequential_call project_dir kwargs) (combinations2 (sort found))
           \<and> length (calls w') = length (calls w) + length found * (length found - 1) div 2)
     \<and> ((\<forall>c f. \<exists>f'. render env c f = (None, f') \<and> (\<forall>p. exists f p \<longrightarrow> exists f' p))
         \<and> \<not> list_ex (\<lambda>k. k \<in> set explicit_keywords) (map fst kwargs)
         \<and> (\<forall>pr\<in>set (combinations2 (sort found)).
               exists f1 (match_record_layout project_dir (name (fst pr)) (name (snd pr)))) \<longrightarrow>
         (\<exists>w'. show_micmac_matches env project_dir img_pattern False kwargs w = (Returned, w')
               \<and> calls w' = calls w @ map (sequential_call project_dir kwargs) (combinations2 (sort found))
               \<and> length (calls w') = length (calls w) + length found * (length found - 1) div 2))"
proof -
  let ?images = "sort found"
  let ?n = "length found * (length found - 1) div 2"
  have d: "distinct ?images" and s: "sorted ?images" using assms(1) by simp_all
  have 1: "length (combinations2 ?images) = ?n"
    using length_combinations2_div [of ?images] by simp
  have 2: "set (combinations2 ?images) = {(?images ! i, ?images ! j) | i j. i < j \<and> j < length found}"
    using set_combinations2 [of ?images] by simp
  have 3: "\<forall>(i0, i1) \<in> set (combinations2 ?images). i0 < i1 \<and> i0 \<noteq> i1
           \<and> (i1, i0) \<notin> set (combinations2 ?images)"
  proof (intro ballI, clarify)
    fix i0 i1 assume m: "(i0, i1) \<in> set (combinations2 ?images)"
    from combinations2_sorted_less [OF s d m] have l: "i0 < i1" .
    have "(i1, i0) \<notin> set (combinations2 ?images)"
    proof
      assume "(i1, i0) \<in> set (combinations2 ?images)"
      from combinations2_sorted_less [OF s d this] l show False by simp
    qed
    with l show "i0 < i1 \<and> i0 \<noteq> i1 \<and> (i1, i0) \<notin> set (combinations2 ?images)" by simp
  qed
  have 4: "distinct (combinations2 ?images)" using distinct_combinations2 [OF d] .
  have 5: "show_micmac_matches env project_dir img_pattern True kwargs w
         = pool_run env (map (parallel_task project_dir) (combinations2 ?images)) (w\<lparr>files := f1\<rparr>)"
    using show_micmac_matches_run [OF assms(2-5), of True kwargs] by simp
  have 6: "show_micmac_matches env project_dir img_pattern False kwargs w
         = sequential_loop env project_dir (homol_of project_dir) (figs_of project_dir) kwargs
             (combinations2 ?images) (w\<lparr>files := f1\<rparr>)"
    using show_micmac_matches_run [OF assms(2-5), of False kwargs] by simp
  have 7: "\<forall>w'. show_micmac_matches env project_dir img_pattern False kwargs w = (Returned, w') \<longrightarrow>
           calls w' = calls w @ map (sequential_call project_dir kwargs) (combinations2 ?images)
           \<and> length (calls w') = length (calls w) + ?n"
  proof (intro allI impI)
    fix w' assume "show_micmac_matches env project_dir img_pattern False kwargs w = (Returned, w')"
    from show_micmac_matches_returned [OF assms(4) this] 1
    show "calls w' = calls w @ map (sequential_call project_dir kwargs) (combinations2 ?images)
           \<and> length (calls w') = length (calls w) + ?n" by simp
  qed
  have 8: "(\<forall>c f. \<exists>f'. render env c f = (None, f') \<and> (\<forall>p. exists f p \<longrightarrow> exists f' p))
         \<and> \<not> list_ex (\<lambda>k. k \<in> set explicit_keywords) (map fst kwargs)
         \<and> (\<forall>pr\<in>set (combinations2 ?images).
               exists f1 (match_record_layout project_dir (name (fst pr)) (name (snd pr)))) \<longrightarrow>
         (\<exists>w'. show_micmac_matches env project_dir img_pattern False kwargs w = (Returned, w')
               \<and> calls w' = calls w @ map (sequential_call project_dir kwargs) (combinations2 ?images)
               \<and> length (calls w') = length (calls w) + ?n)"
  proof
    assume h: "(\<forall>c f. \<exists>f'. render env c f = (None, f') \<and> (\<forall>p. exists f p \<longrightarrow> exists f' p))
         \<and> \<not> list_ex (\<lambda>k. k \<in> set explicit_keywords) (map fst kwargs)
         \<and> (\<forall>pr\<in>set (combinations2 ?images).
               exists f1 (match_record_layout project_dir (name (fst pr)) (name (snd pr))))"
    from h have a: "\<forall>c f. \<exists>f'. render env c f = (None, f') \<and> (\<forall>p. exists f p \<longrightarrow> exists f' p)"
      by (rule conjunct1)
    from h have b: "\<not> list_ex (\<lambda>k. k \<in> set explicit_keywords) (map fst kwargs)"
      by (rule conjunct1 [OF conjunct2])
    from h have c: "\<forall>pr\<in>set (combinations2 ?images).
               exists f1 (match_record_layout project_dir (name (fst pr)) (name (snd pr)))"
      by (rule conjunct2 [OF conjunct2])
    from show_micmac_matches_completes [OF assms(2-5) a b c] obtain w' where
      r: "show_micmac_matches env project_dir img_pattern False kwargs w = (Returned, w')"
      and k: "calls w' = calls w @ map (sequential_call project_dir kwargs) (combinations2 ?images)"
      by blast
    from k 1 have "length (calls w') = length (calls w) + ?n" by simp
    with r k show "\<exists>w'. show_micmac_matches env project_dir img_pattern False kwargs w = (Returned, w')
               \<and> calls w' = calls w @ map (sequential_call project_dir kwargs) (combinations2 ?images)
               \<and> length (calls w') = length (calls w) + ?n" by blast
  qed
  from 1 2 3 4 5 6 7 8 show ?thesis by (intro conjI)
qed

theorem pair_enumeration_witness:
  "distinct demo_listing
   \<and> exists (files (demo_world demo_fs_all)) [''proj'']
   \<and> exists (files (demo_world demo_fs_all)) (joinpath [''proj''] ''Homol'')
   \<and> glob_paths (demo_env demo_listing) (files (demo_world demo_fs_all)) [''proj''] ''*.tif''
       = Inr demo_listing
   \<and> mkdir_parents_exist_ok (joinpath [''proj''] ''match_figs'') (files (demo_world demo_fs_all))
       = Inr (demo_fs_all([''proj'', ''match_figs''] \<mapsto> Dir))
   \<and> length (combinations2 (sort demo_listing)) = 3
   \<and> show_micmac_matches (demo_env demo_listing) [''proj''] ''*.tif'' True [] (demo_world demo_fs_all)
       = (Returned,
          \<lparr>files = demo_fs_all([''proj'', ''match_figs''] \<mapsto> Dir), stdout = [],
           calls = map (parallel_task [''proj''])
                     [([''proj'', ''a.tif''], [''proj'', ''b.tif'']),
                      ([''proj'', ''a.tif''], [''proj'', ''c.tif'']),
                      ([''proj'', ''b.tif''], [''proj'', ''c.tif''])]\<rparr>)
   \<and> show_micmac_matches (demo_env demo_listing) [''proj''] ''*.tif'' False [] (demo_world demo_fs_all)
       = (Returned,
          \<lparr>files = demo_fs_all([''proj'', ''match_figs''] \<mapsto> Dir),
           stdout = [''Exporting matches between a.tif and b.tif'', ''Done.'',
                     ''Exporting matches between a.tif and c.tif'', ''Done.'',
                     ''Exporting matches between b.tif and c.tif'', ''Done.''],
           calls = map (sequential_call [''proj''] [])
                     [([''proj'', ''a.tif''], [''proj'', ''b.tif'']),
                      ([''proj'', ''a.tif''], [''proj'', ''c.tif'']),
                      ([''proj'', ''b.tif''], [''proj'', ''c.tif''])]\<rparr>)"
proof -
  let ?w = "demo_world demo_fs_all" and ?env = "demo_env demo_listing"
  let ?f1 = "demo_fs_all([''proj'', ''match_figs''] \<mapsto> Dir)"
  have h: "distinct demo_listing" by (simp add: demo_listing_def)
  have 1: "exists (files ?w) [''proj'']" by (simp add: eval_all)
  have 2: "exists (files ?w) (joinpath [''proj''] ''Homol'')" by (simp add: eval_all)
  have 3: "glob_paths ?env (files ?w) [''proj''] ''*.tif'' = Inr demo_listing"
    by (simp add: demo_env_def)
  have 4: "mkdir_parents_exist_ok (joinpath [''proj''] ''match_figs'') (files ?w) = Inr ?f1"
    using demo_mkdir_all by (simp add: demo_world_def joinpath_def)
  note t = pair_enumeration [OF h 1 2 3 4, where kwargs = "[]"]
  from t have "length (combinations2 (sort demo_listing))
                 = length demo_listing * (length demo_listing - 1) div 2" by (rule conjunct1)
  then have 5: "length (combinations2 (sort demo_listing)) = 3" by (simp add: demo_listing_def)
  from t have "show_micmac_matches ?env [''proj''] ''*.tif'' True [] ?w
         = pool_run ?env (map (parallel_task [''proj'']) (combinations2 (sort demo_listing)))
             (?w\<lparr>files := ?f1\<rparr>)" by (elim conjE)
  then have 6: "show_micmac_matches ?env [''proj''] ''*.tif'' True [] ?w
       = (Returned,
          \<lparr>files = ?f1, stdout = [],
           calls = map (parallel_task [''proj''])
                     [([''proj'', ''a.tif''], [''proj'', ''b.tif'']),
                      ([''proj'', ''a.tif''], [''proj'', ''c.tif'']),
                      ([''proj'', ''b.tif''], [''proj'', ''c.tif''])]\<rparr>)"
    by (simp add: demo_sort pool_run_def demo_env_def demo_world_def)
  from t have "show_micmac_matches ?env [''proj''] ''*.tif'' False [] ?w
         = sequential_loop ?env [''proj''] (joinpath [''proj''] ''Homol'')
             (joinpath [''proj''] ''match_figs'') [] (combinations2 (sort demo_listing))
             (?w\<lparr>files := ?f1\<rparr>)" by (elim conjE)
  then have 7: "show_micmac_matches ?env [''proj''] ''*.tif'' False [] ?w
       = (Returned,
          \<lparr>files = ?f1,
           stdout = [''Exporting matches between a.tif and b.tif'', ''Done.'',
                     ''Exporting matches between a.tif and c.tif'', ''Done.'',
                     ''Exporting matches between b.tif and c.tif'', ''Done.''],
           calls = map (sequential_call [''proj''] [])
                     [([''proj'', ''a.tif''], [''proj'', ''b.tif'']),
                      ([''proj'', ''a.tif''], [''proj'', ''c.tif'']),
                      ([''proj'', ''b.tif''], [''proj'', ''c.tif''])]\<rparr>)"
    by (simp add: demo_sort eval_all)
  from h 1 2 3 4 5 6 7 show ?thesis by (intro conjI)
qed

section \<open>The sequential path stops at the first missing match record\<close>

text \<open>
  C2. In sequential mode, when the loop has processed the pairs before \<open>(i0, i1)\<close> and
  the match record of \<open>(i0, i1)\<close> does not exist at that moment, the call raises
  FileNotFoundError with a message that holds the missing path. The state it leaves has
  one renderer call for each earlier pair, in enumeration order, and none for
  \<open>(i0, i1)\<close> or any later pair: nothing happens after the progress line of the
  failing pair.
\<close>

theorem sequential_fail_fast:
  assumes "exists (files w) project_dir" and "exists (files w) (homol_of project_dir)"
    and "glob_paths env (files w) project_dir img_pattern = Inr found"
    and "mkdir_parents_exist_ok (figs_of project_dir) (files w) = Inr f1"
    and "combinations2 (sort found) = ps @ (i0, i1) # qs"
    and "sequential_loop env project_dir (homol_of project_dir) (figs_of project_dir) kwargs ps
           (w\<lparr>files := f1\<rparr>) = (Returned, w2)"
    and "\<not> exists (files w2) (match_record_layout project_dir (name i0) (name i1))"
  shows "show_micmac_matches env project_dir img_pattern False kwargs w =
           (Raised (FileNotFoundError (''Matches file ''
                      @ path_str (match_record_layout project_dir (name i0) (name i1))
                      @ '' does not exist'')),
            print_line (''Exporting matches between '' @ name i0 @ '' and '' @ name i1) w2)
         \<and> calls (print_line (''Exporting matches between '' @ name i0 @ '' and '' @ name i1) w2)
             = calls w @ map (sequential_call project_dir kwargs) ps
         \<and> files (print_line (''Exporting matches between '' @ name i0 @ '' and '' @ name i1) w2)
             = files w2"
proof -
  have run: "show_micmac_matches env project_dir img_pattern False kwargs w =
      sequential_loop env project_dir (homol_of project_dir) (figs_of project_dir) kwargs
        (ps @ (i0, i1) # qs) (w\<lparr>files := f1\<rparr>)"
    using show_micmac_matches_run [OF assms(1-4), of False kwargs] assms(5) by simp
  have "sequential_loop env project_dir (homol_of project_dir) (figs_of project_dir) kwargs
        (ps @ (i0, i1) # qs) (w\<lparr>files := f1\<rparr>)
      = sequential_loop env project_dir (homol_of project_dir) (figs_of project_dir) kwargs
        ((i0, i1) # qs) w2"
    using assms(6) by (simp add: sequential_loop_append)
  also have "\<dots> = (Raised (FileNotFoundError (''Matches file ''
                      @ path_str (match_record_layout project_dir (name i0) (name i1))
                      @ '' does not exist'')),
            print_line (''Exporting matches between '' @ name i0 @ '' and '' @ name i1) w2)"
    using process_pair_missing [OF assms(7), of env kwargs] by simp
  finally have a: "sequential_loop env project_dir (homol_of project_dir) (figs_of project_dir) kwargs
        (ps @ (i0, i1) # qs) (w\<lparr>files := f1\<rparr>) = (Raised (FileNotFoundError (''Matches file ''
                      @ path_str (match_record_layout project_dir (name i0) (name i1))
                      @ '' does not exist'')),
            print_line (''Exporting matches between '' @ name i0 @ '' and '' @ name i1) w2)" .
  from sequential_loop_returned [OF assms(6)]
  have "calls w2 = calls w @ map (sequential_call project_dir kwargs) ps" by simp
  with run a show ?thesis by simp
qed

theorem sequential_fail_fast_witness:
  "show_micmac_matches (demo_env demo_listing) [''proj''] ''*.tif'' False [] (demo_world demo_fs_ab) =
     (Raised (FileNotFoundError ''Matches file proj/Homol/Pastisa.tif/c.tif.txt does not exist''),
      \<lparr>files = demo_fs_ab([''proj'', ''match_figs''] \<mapsto> Dir),
       stdout = [''Exporting matches between a.tif and b.tif'', ''Done.'',
                 ''Exporting matches between a.tif and c.tif''],
       calls = [sequential_call [''proj''] [] ([''proj'', ''a.tif''], [''proj'', ''b.tif''])]\<rparr>)"
proof -
  let ?w = "demo_world demo_fs_ab"
  let ?f1 = "demo_fs_ab([''proj'', ''match_figs''] \<mapsto> Dir)"
  let ?a = "[''proj'', ''a.tif'']" and ?b = "[''proj'', ''b.tif'']" and ?c = "[''proj'', ''c.tif'']"
  let ?w2 = "\<lparr>files = ?f1,
       stdout = [''Exporting matches between a.tif and b.tif'', ''Done.''],
       calls = [sequential_call [''proj''] [] (?a, ?b) :: nat render_call]\<rparr>"
  have 1: "exists (files ?w) [''proj'']" by (simp add: eval_defs)
  have 2: "exists (files ?w) (homol_of [''proj''])" by (simp add: eval_defs)
  have 3: "glob_paths (demo_env demo_listing) (files ?w) [''proj''] ''*.tif'' = Inr demo_listing"
    by (simp add: demo_env_def)
  have 4: "mkdir_parents_exist_ok (figs_of [''proj'']) (files ?w) = Inr ?f1"
    using demo_mkdir by (simp add: demo_world_def joinpath_def)
  have 5: "combinations2 (sort demo_listing) = [(?a, ?b)] @ (?a, ?c) # [(?b, ?c)]"
    by (simp add: demo_sort)
  have 6: "sequential_loop (demo_env demo_listing) [''proj''] (homol_of [''proj'']) (figs_of [''proj''])
             [] [(?a, ?b)] (?w\<lparr>files := ?f1\<rparr>) = (Returned, ?w2)"
    by (simp add: eval_defs)
  have 7: "\<not> exists (files ?w2) (match_record_layout [''proj''] (name ?a) (name ?c))"
    by (simp add: eval_defs)
  from sequential_fail_fast [OF 1 2 3 4 5 6 7]
  show ?thesis by (simp add: eval_defs)
qed

section \<open>The naming convention\<close>

text \<open>
  C5. For every pair the code resolves the match record at
  \<^verbatim>\<open><project_dir>/Homol/Pastis<i0.name>/<i1.name>.txt\<close> and hands the renderer the output
  path \<^verbatim>\<open><project_dir>/match_figs/matches_<i0.name>-<i1.name>.png\<close>, in both modes. The
  parallel call hands the pool, for each enumerated pair, the task holding these two
  paths. In the sequential path the step for a pair whose match record exists calls the
  renderer with exactly these two paths (and both names and the options), and the step
  for a pair whose match record is missing raises the error naming the match record
  path; a whole sequential call makes these calls for the pairs it reaches, for all
  pairs when it returns, and it returns when every match record is there and the
  renderer returns and removes nothing. For a project directory other than the anchor
  the two paths print as the two strings of the specification.
\<close>

theorem naming_convention:
  "(exists (files w) project_dir \<and> exists (files w) (homol_of project_dir)
      \<and> glob_paths env (files w) project_dir img_pattern = Inr found
      \<and> mkdir_parents_exist_ok (figs_of project_dir) (files w) = Inr f1 \<longrightarrow>
      show_micmac_matches env project_dir img_pattern True kwargs w
        = pool_run env
            (map (\<lambda>(i0, i1).
                    \<lparr>pos_args = [match_record_layout project_dir (name i0) (name i1),
                                 project_dir,
                                 artifact_layout project_dir (name i0) (name i1)],
                     kw_args = []\<rparr>) (combinations2 (sort found)))
            (w\<lparr>files := f1\<rparr>))
   \<and> (exists (files w) (match_record_layout project_dir (name i0) (name i1))
       \<and> \<not> list_ex (\<lambda>k. k \<in> set explicit_keywords) (map fst kwargs) \<longrightarrow>
       calls (snd (process_pair env project_dir (homol_of project_dir) (figs_of project_dir)
                     kwargs (i0, i1) w))
         = calls w @
           [\<lparr>pos_args = [match_record_layout project_dir (name i0) (name i1), project_dir],
             kw_args = [(''i0_name'', StrV (name i0)),
                        (''i1_name'', StrV (name i1)),
                        (''out'', PathV (artifact_layout project_dir (name i0) (name i1)))]
                       @ map (\<lambda>(k, v). (k, OptV v)) kwargs\<rparr>])
   \<and> (\<not> exists (files w) (match_record_layout project_dir (name i0) (name i1)) \<longrightarrow>
       process_pair env project_dir (homol_of project_dir) (figs_of project_dir) kwargs (i0, i1) w
         = (Raised (FileNotFoundError (''Matches file ''
                      @ path_str (match_record_layout project_dir (name i0) (name i1))
                      @ '' does not exist'')),
            print_line (''Exporting matches between '' @ name i0 @ '' and '' @ name i1) w))
   \<and> (glob_paths env (files w) project_dir img_pattern = Inr found \<longrightarrow>
        (\<exists>k \<le> length (combinations2 (sort found)).
           calls (snd (show_micmac_matches env project_dir img_pattern False kwargs w))
             = calls w @
               map (\<lambda>(i0, i1).
                      \<lparr>pos_args = [match_record_layout project_dir (name i0) (name i1), project_dir],
                       kw_args = [(''i0_name'', StrV (name i0)),
                                  (''i1_name'', StrV (name i1)),
                                  (''out'', PathV (artifact_layout project_dir (name i0) (name i1)))]
                                 @ map (\<lambda>(k, v). (k, OptV v)) kwargs\<rparr>)
                   (take k (combinations2 (sort found))))
        \<and> (\<forall>w'. show_micmac_matches env project_dir img_pattern False kwargs w = (Returned, w') \<longrightarrow>
             calls w' = calls w @
               map (\<lambda>(i0, i1).
                      \<lparr>pos_args = [match_record_layout project_dir (name i0) (name i1), project_dir],
                       kw_args = [(''i0_name'', StrV (name i0)),
                                  (''i1_name'', StrV (name i1)),
                                  (''out'', PathV (artifact_layout project_dir (name i0) (name i1)))]
                                 @ map (\<lambda>(k, v). (k, OptV v)) kwargs\<rparr>)
                   (combinations2 (sort found))))
   \<and> (exists (files w) project_dir \<and> exists (files w) (homol_of project_dir)
       \<and> glob_paths env (files w) project_dir img_pattern = Inr found
       \<and> mkdir_parents_exist_ok (figs_of project_dir) (files w) = Inr f1
       \<and> (\<forall>c f. \<exists>f'. render env c f = (None, f') \<and> (\<forall>p. exists f p \<longrightarrow> exists f' p))
       \<and> \<not> list_ex (\<lambda>k. k \<in> set explicit_keywords) (map fst kwargs)
       \<and> (\<forall>pr\<in>set (combinations2 (sort found)).
             exists f1 (match_record_layout project_dir (name (fst pr)) (name (snd pr)))) \<longrightarrow>
       (\<exists>w'. show_micmac_matches env project_dir img_pattern False kwargs w = (Returned, w')
          \<and> calls w' = calls w @
               map (\<lambda>(i0, i1).
                      \<lparr>pos_args = [match_record_layout project_dir (name i0) (name i1), project_dir],
                       kw_args = [(''i0_name'', StrV (name i0)),
                                  (''i1_name'', StrV (name i1)),
                                  (''out'', PathV (artifact_layout project_dir (name i0) (name i1)))]
                                 @ map (\<lambda>(k, v). (k, OptV v)) kwargs\<rparr>)
                   (combinations2 (sort found))))
   \<and> (project_dir \<noteq> [] \<longrightarrow>
        path_str (match_record_layout project_dir n0 n1)
          = path_str project_dir @ ''/Homol/Pastis'' @ n0 @ ''/'' @ n1 @ ''.txt''
        \<and> path_str (artifact_layout project_dir n0 n1)
          = path_str project_dir @ ''/match_figs/matches_'' @ n0 @ ''-'' @ n1 @ ''.png'')"
proof -
  let ?sc = "\<lambda>(i0, i1).
                      \<lparr>pos_args = [match_record_layout project_dir (name i0) (name i1), project_dir],
                       kw_args = [(''i0_name'', StrV (name i0)),
                                  (''i1_name'', StrV (name i1)),
                                  (''out'', PathV (artifact_layout project_dir (name i0) (name i1)))]
                                 @ map (\<lambda>(k, v). (k, OptV v)) kwargs\<rparr>"
  let ?pt = "\<lambda>(i0, i1).
              \<lparr>pos_args = [match_record_layout project_dir (name i0) (name i1),
                           project_dir,
                           artifact_layout project_dir (name i0) (name i1)],
               kw_args = []\<rparr>"
  have sc: "sequential_call project_dir kwargs = ?sc"
    by (auto simp: sequential_call_def fun_eq_iff)
  have pt: "parallel_task project_dir = ?pt"
    by (auto simp: parallel_task_def fun_eq_iff)
  have 1: "exists (files w) project_dir \<and> exists (files w) (homol_of project_dir)
      \<and> glob_paths env (files w) project_dir img_pattern = Inr found
      \<and> mkdir_parents_exist_ok (figs_of project_dir) (files w) = Inr f1 \<longrightarrow>
      show_micmac_matches env project_dir img_pattern True kwargs w
        = pool_run env (map ?pt (combinations2 (sort found))) (w\<lparr>files := f1\<rparr>)"
  proof
    assume h: "exists (files w) project_dir \<and> exists (files w) (homol_of project_dir)
      \<and> glob_paths env (files w) project_dir img_pattern = Inr found
      \<and> mkdir_parents_exist_ok (figs_of project_dir) (files w) = Inr f1"
    from h have a: "exists (files w) project_dir" by (rule conjunct1)
    from h have b: "exists (files w) (homol_of project_dir)" by (rule conjunct1 [OF conjunct2])
    from h have c: "glob_paths env (files w) project_dir img_pattern = Inr found"
      by (rule conjunct1 [OF conjunct2 [OF conjunct2]])
    from h have d: "mkdir_parents_exist_ok (figs_of project_dir) (files w) = Inr f1"
      by (rule conjunct2 [OF conjunct2 [OF conjunct2]])
    from show_micmac_matches_run [OF a b c d, of True kwargs]
    show "show_micmac_matches env project_dir img_pattern True kwargs w
        = pool_run env (map ?pt (combinations2 (sort found))) (w\<lparr>files := f1\<rparr>)"
      by (simp only: pt if_False if_True not_True_eq_False)
  qed
  have 2: "exists (files w) (match_record_layout project_dir (name i0) (name i1))
       \<and> \<not> list_ex (\<lambda>k. k \<in> set explicit_keywords) (map fst kwargs) \<longrightarrow>
       calls (snd (process_pair env project_dir (homol_of project_dir) (figs_of project_dir)
                     kwargs (i0, i1) w))
         = calls w @
           [\<lparr>pos_args = [match_record_layout project_dir (name i0) (name i1), project_dir],
             kw_args = [(''i0_name'', StrV (name i0)),
                        (''i1_name'', StrV (name i1)),
                        (''out'', PathV (artifact_layout project_dir (name i0) (name i1)))]
                       @ map (\<lambda>(k, v). (k, OptV v)) kwargs\<rparr>]"
  proof
    assume h: "exists (files w) (match_record_layout project_dir (name i0) (name i1))
       \<and> \<not> list_ex (\<lambda>k. k \<in> set explicit_keywords) (map fst kwargs)"
    have e: "sequential_call project_dir kwargs (i0, i1)
       = \<lparr>pos_args = [match_record_layout project_dir (name i0) (name i1), project_dir],
             kw_args = [(''i0_name'', StrV (name i0)),
                        (''i1_name'', StrV (name i1)),
                        (''out'', PathV (artifact_layout project_dir (name i0) (name i1)))]
                       @ map (\<lambda>(k, v). (k, OptV v)) kwargs\<rparr>"
      by (simp add: sequential_call_def)
    from process_pair_call [OF conjunct1 [OF h] conjunct2 [OF h], of env]
    show "calls (snd (process_pair env project_dir (homol_of project_dir) (figs_of project_dir)
                     kwargs (i0, i1) w))
         = calls w @
           [\<lparr>pos_args = [match_record_layout project_dir (name i0) (name i1), project_dir],
             kw_args = [(''i0_name'', StrV (name i0)),
                        (''i1_name'', StrV (name i1)),
                        (''out'', PathV (artifact_layout project_dir (name i0) (name i1)))]
                       @ map (\<lambda>(k, v). (k, OptV v)) kwargs\<rparr>]"
      unfolding e .
  qed
  have 3: "\<not> exists (files w) (match_record_layout project_dir (name i0) (name i1)) \<longrightarrow>
       process_pair env project_dir (homol_of project_dir) (figs_of project_dir) kwargs (i0, i1) w
         = (Raised (FileNotFoundError (''Matches file ''
                      @ path_str (match_record_layout project_dir (name i0) (name i1))
                      @ '' does not exist'')),
            print_line (''Exporting matches between '' @ name i0 @ '' and '' @ name i1) w)"
    using process_pair_missing [of w project_dir i0 i1 env kwargs] by blast
  have 4: "glob_paths env (files w) project_dir img_pattern = Inr found \<longrightarrow>
        (\<exists>k \<le> length (combinations2 (sort found)).
           calls (snd (show_micmac_matches env project_dir img_pattern False kwargs w))
             = calls w @ map ?sc (take k (combinations2 (sort found))))
        \<and> (\<forall>w'. show_micmac_matches env project_dir img_pattern False kwargs w = (Returned, w') \<longrightarrow>
             calls w' = calls w @ map ?sc (combinations2 (sort found)))"
  proof (intro impI conjI allI)
    assume g: "glob_paths env (files w) project_dir img_pattern = Inr found"
    from show_micmac_matches_sequential_calls [OF g, of kwargs]
    show "\<exists>k \<le> length (combinations2 (sort found)).
           calls (snd (show_micmac_matches env project_dir img_pattern False kwargs w))
             = calls w @ map ?sc (take k (combinations2 (sort found)))"
      by (simp only: sc)
    fix w' assume "show_micmac_matches env project_dir img_pattern False kwargs w = (Returned, w')"
    from show_micmac_matches_returned [OF g this]
    show "calls w' = calls w @ map ?sc (combinations2 (sort found))" by (simp only: sc)
  qed
  have 5: "exists (files w) project_dir \<and> exists (files w) (homol_of project_dir)
       \<and> glob_paths env (files w) project_dir img_pattern = Inr found
       \<and> mkdir_parents_exist_ok (figs_of project_dir) (files w) = Inr f1
       \<and> (\<forall>c f. \<exists>f'. render env c f = (None, f') \<and> (\<forall>p. exists f p \<longrightarrow> exists f' p))
       \<and> \<not> list_ex (\<lambda>k. k \<in> set explicit_keywords) (map fst kwargs)
       \<and> (\<forall>pr\<in>set (combinations2 (sort found)).
             exists f1 (match_record_layout project_dir (name (fst pr)) (name (snd pr)))) \<longrightarrow>
       (\<exists>w'. show_micmac_matches env project_dir img_pattern False kwargs w = (Returned, w')
          \<and> calls w' = calls w @ map ?sc (combinations2 (sort found)))"
  proof
    assume h: "exists (files w) project_dir \<and> exists (files w) (homol_of project_dir)
       \<and> glob_paths env (files w) project_dir img_pattern = Inr found
       \<and> mkdir_parents_exist_ok (figs_of project_dir) (files w) = Inr f1
       \<and> (\<forall>c f. \<exists>f'. render env c f = (None, f') \<and> (\<forall>p. exists f p \<longrightarrow> exists f' p))
       \<and> \<not> list_ex (\<lambda>k. k \<in> set explicit_keywords) (map fst kwargs)
       \<and> (\<forall>pr\<in>set (combinations2 (sort found)).
             exists f1 (match_record_layout project_dir (name (fst pr)) (name (snd pr))))"
    note r = conjunct2 [OF h]
    note r2 = conjunct2 [OF r]
    note r3 = conjunct2 [OF r2]
    note r4 = conjunct2 [OF r3]
    note r5 = conjunct2 [OF r4]
    from show_micmac_matches_completes [OF conjunct1 [OF h] conjunct1 [OF r] conjunct1 [OF r2]
        conjunct1 [OF r3] conjunct1 [OF r4] conjunct1 [OF r5] conjunct2 [OF r5]]
    show "\<exists>w'. show_micmac_matches env project_dir img_pattern False kwargs w = (Returned, w')
          \<and> calls w' = calls w @ map ?sc (combinations2 (sort found))"
      by (simp only: sc)
  qed
  have 6: "project_dir \<noteq> [] \<longrightarrow>
        path_str (match_record_layout project_dir n0 n1)
          = path_str project_dir @ ''/Homol/Pastis'' @ n0 @ ''/'' @ n1 @ ''.txt''
        \<and> path_str (artifact_layout project_dir n0 n1)
          = path_str project_dir @ ''/match_figs/matches_'' @ n0 @ ''-'' @ n1 @ ''.png''"
    by (simp add: match_record_layout_def artifact_layout_def path_str_snoc2 path_str_snoc3)
  from 1 2 3 4 5 6 show ?thesis by (intro conjI)
qed

theorem naming_convention_witness:
  "show_micmac_matches (demo_env demo_listing) [''proj''] ''*.tif'' True
       [(''line_thickness'', 1)] (demo_world demo_fs_all)
     = (Returned,
        \<lparr>files = demo_fs_all([''proj'', ''match_figs''] \<mapsto> Dir), stdout = [],
         calls = [\<lparr>pos_args = [[''proj'', ''Homol'', ''Pastisa.tif'', ''b.tif.txt''], [''proj''],
                               [''proj'', ''match_figs'', ''matches_a.tif-b.tif.png'']],
                   kw_args = []\<rparr>,
                  \<lparr>pos_args = [[''proj'', ''Homol'', ''Pastisa.tif'', ''c.tif.txt''], [''proj''],
                               [''proj'', ''match_figs'', ''matches_a.tif-c.tif.png'']],
                   kw_args = []\<rparr>,
                  \<lparr>pos_args = [[''proj'', ''Homol'', ''Pastisb.tif'', ''c.tif.txt''], [''proj''],
                               [''proj'', ''match_figs'', ''matches_b.tif-c.tif.png'']],
                   kw_args = []\<rparr>]\<rparr>)
   \<and> fst (show_micmac_matches (demo_env demo_listing) [''proj''] ''*.tif'' False
             [(''line_thickness'', 1)] (demo_world demo_fs_all)) = Returned
   \<and> calls (snd (show_micmac_matches (demo_env demo_listing) [''proj''] ''*.tif'' False
             [(''line_thickness'', 1)] (demo_world demo_fs_all)))
     = [\<lparr>pos_args = [[''proj'', ''Homol'', ''Pastisa.tif'', ''b.tif.txt''], [''proj'']],
         kw_args = [(''i0_name'', StrV ''a.tif''), (''i1_name'', StrV ''b.tif''),
                    (''out'', PathV [''proj'', ''match_figs'', ''matches_a.tif-b.tif.png'']),
                    (''line_thickness'', OptV 1)]\<rparr>,
        \<lparr>pos_args = [[''proj'', ''Homol'', ''Pastisa.tif'', ''c.tif.txt''], [''proj'']],
         kw_args = [(''i0_name'', StrV ''a.tif''), (''i1_name'', StrV ''c.tif''),
                    (''out'', PathV [''proj'', ''match_figs'', ''matches_a.tif-c.tif.png'']),
                    (''line_thickness'', OptV 1)]\<rparr>,
        \<lparr>pos_args = [[''proj'', ''Homol'', ''Pastisb.tif'', ''c.tif.txt''], [''proj'']],
         kw_args = [(''i0_name'', StrV ''b.tif''), (''i1_name'', StrV ''c.tif''),
                    (''out'', PathV [''proj'', ''match_figs'', ''matches_b.tif-c.tif.png'']),
                    (''line_thickness'', OptV 1)]\<rparr>]
   \<and> calls (snd (process_pair (demo_env demo_listing) [''proj''] [''proj'', ''Homol'']
                    [''proj'', ''match_figs''] [(''line_thickness'', 1)]
                    ([''proj'', ''a.tif''], [''proj'', ''b.tif'']) (demo_world demo_fs_ab)))
     = [\<lparr>pos_args = [[''proj'', ''Homol'', ''Pastisa.tif'', ''b.tif.txt''], [''proj'']],
         kw_args = [(''i0_name'', StrV ''a.tif''), (''i1_name'', StrV ''b.tif''),
                    (''out'', PathV [''proj'', ''match_figs'', ''matches_a.tif-b.tif.png'']),
                    (''line_thickness'', OptV 1)]\<rparr>]
   \<and> process_pair (demo_env demo_listing) [''proj''] [''proj'', ''Homol'']
         [''proj'', ''match_figs''] [(''line_thickness'', 1)]
         ([''proj'', ''a.tif''], [''proj'', ''c.tif'']) (demo_world demo_fs_ab)
     = (Raised (FileNotFoundError ''Matches file proj/Homol/Pastisa.tif/c.tif.txt does not exist''),
        \<lparr>files = demo_fs_ab, stdout = [''Exporting matches between a.tif and c.tif''], calls = []\<rparr>)
   \<and> path_str (match_record_layout [''proj''] ''a.tif'' ''c.tif'') = ''proj/Homol/Pastisa.tif/c.tif.txt''
   \<and> path_str (artifact_layout [''proj''] ''a.tif'' ''c.tif'') = ''proj/match_figs/matches_a.tif-c.tif.png''"
proof -
  let ?w = "demo_world demo_fs_all" and ?env = "demo_env demo_listing"
  let ?wab = "demo_world demo_fs_ab"
  let ?f1 = "demo_fs_all([''proj'', ''match_figs''] \<mapsto> Dir)"
  let ?kw = "[(''line_thickness'', 1 :: nat)]"
  let ?a = "[''proj'', ''a.tif'']" and ?b = "[''proj'', ''b.tif'']" and ?c = "[''proj'', ''c.tif'']"
  have 1: "exists (files ?w) [''proj'']" by (simp add: eval_all)
  have 2: "exists (files ?w) (homol_of [''proj''])" by (simp add: eval_all)
  have 3: "glob_paths ?env (files ?w) [''proj''] ''*.tif'' = Inr demo_listing"
    by (simp add: demo_env_def)
  have 4: "mkdir_parents_exist_ok (figs_of [''proj'']) (files ?w) = Inr ?f1"
    using demo_mkdir_all by (simp add: demo_world_def joinpath_def)
  have 5: "\<forall>c f. \<exists>f'. render ?env c f = (None, f') \<and> (\<forall>p. exists f p \<longrightarrow> exists f' p)"
    by (simp add: demo_env_def)
  have 6: "\<not> list_ex (\<lambda>k. k \<in> set explicit_keywords) (map fst ?kw)"
    by (simp add: explicit_keywords_def)
  have 7: "\<forall>pr\<in>set (combinations2 (sort demo_listing)).
             exists ?f1 (match_record_layout [''proj''] (name (fst pr)) (name (snd pr)))"
    by (simp add: demo_sort eval_all)
  note n = naming_convention [where project_dir = "[''proj'']" and env = ?env and w = ?w
      and img_pattern = "''*.tif''" and found = demo_listing and ?f1.0 = ?f1 and kwargs = ?kw]
  from n 1 2 3 4 have "show_micmac_matches ?env [''proj''] ''*.tif'' True ?kw ?w
        = pool_run ?env
            (map (\<lambda>(i0, i1).
                    \<lparr>pos_args = [match_record_layout [''proj''] (name i0) (name i1),
                                 [''proj''],
                                 artifact_layout [''proj''] (name i0) (name i1)],
                     kw_args = []\<rparr>) (combinations2 (sort demo_listing)))
            (?w\<lparr>files := ?f1\<rparr>)"
    by blast
  then have a: "show_micmac_matches ?env [''proj''] ''*.tif'' True ?kw ?w
     = (Returned,
        \<lparr>files = ?f1, stdout = [],
         calls = [\<lparr>pos_args = [[''proj'', ''Homol'', ''Pastisa.tif'', ''b.tif.txt''], [''proj''],
                               [''proj'', ''match_figs'', ''matches_a.tif-b.tif.png'']],
                   kw_args = []\<rparr>,
                  \<lparr>pos_args = [[''proj'', ''Homol'', ''Pastisa.tif'', ''c.tif.txt''], [''proj''],
                               [''proj'', ''match_figs'', ''matches_a.tif-c.tif.png'']],
                   kw_args = []\<rparr>,
                  \<lparr>pos_args = [[''proj'', ''Homol'', ''Pastisb.tif'', ''c.tif.txt''], [''proj''],
                               [''proj'', ''match_figs'', ''matches_b.tif-c.tif.png'']],
                   kw_args = []\<rparr>]\<rparr>)"
    by (simp add: demo_sort pool_run_def demo_env_def demo_world_def match_record_layout_def
          artifact_layout_def name_def)
  from n 1 2 3 4 5 6 7 obtain w' where
    r: "show_micmac_matches ?env [''proj''] ''*.tif'' False ?kw ?w = (Returned, w')"
    and k: "calls w' = calls ?w @
               map (\<lambda>(i0, i1).
                      \<lparr>pos_args = [match_record_layout [''proj''] (name i0) (name i1), [''proj'']],
                       kw_args = [(''i0_name'', StrV (name i0)),
                                  (''i1_name'', StrV (name i1)),
                                  (''out'', PathV (artifact_layout [''proj''] (name i0) (name i1)))]
                                 @ map (\<lambda>(k, v). (k, OptV v)) ?kw\<rparr>)
                   (combinations2 (sort demo_listing))"
    by blast
  from r have b: "fst (show_micmac_matches ?env [''proj''] ''*.tif'' False ?kw ?w) = Returned" by simp
  from r k have c: "calls (snd (show_micmac_matches ?env [''proj''] ''*.tif'' False ?kw ?w))
     = [\<lparr>pos_args = [[''proj'', ''Homol'', ''Pastisa.tif'', ''b.tif.txt''], [''proj'']],
         kw_args = [(''i0_name'', StrV ''a.tif''), (''i1_name'', StrV ''b.tif''),
                    (''out'', PathV [''proj'', ''match_figs'', ''matches_a.tif-b.tif.png'']),
                    (''line_thickness'', OptV 1)]\<rparr>,
        \<lparr>pos_args = [[''proj'', ''Homol'', ''Pastisa.tif'', ''c.tif.txt''], [''proj'']],
         kw_args = [(''i0_name'', StrV ''a.tif''), (''i1_name'', StrV ''c.tif''),
                    (''out'', PathV [''proj'', ''match_figs'', ''matches_a.tif-c.tif.png'']),
                    (''line_thickness'', OptV 1)]\<rparr>,
        \<lparr>pos_args = [[''proj'', ''Homol'', ''Pastisb.tif'', ''c.tif.txt''], [''proj'']],
         kw_args = [(''i0_name'', StrV ''b.tif''), (''i1_name'', StrV ''c.tif''),
                    (''out'', PathV [''proj'', ''match_figs'', ''matches_b.tif-c.tif.png'']),
                    (''line_thickness'', OptV 1)]\<rparr>]"
    by (simp add: demo_sort demo_world_def match_record_layout_def artifact_layout_def name_def)
  note m = naming_convention [where project_dir = "[''proj'']" and env = ?env and w = ?wab
      and kwargs = ?kw and ?i0.0 = ?a and ?i1.0 = ?b]
  have 8: "exists (files ?wab) (match_record_layout [''proj''] (name ?a) (name ?b))"
    by (simp add: eval_defs)
  from m 6 8 have "calls (snd (process_pair ?env [''proj''] (homol_of [''proj'']) (figs_of [''proj''])
                     ?kw (?a, ?b) ?wab))
         = calls ?wab @
           [\<lparr>pos_args = [match_record_layout [''proj''] (name ?a) (name ?b), [''proj'']],
             kw_args = [(''i0_name'', StrV (name ?a)),
                        (''i1_name'', StrV (name ?b)),
                        (''out'', PathV (artifact_layout [''proj''] (name ?a) (name ?b)))]
                       @ map (\<lambda>(k, v). (k, OptV v)) ?kw\<rparr>]"
    by blast
  then have d: "calls (snd (process_pair ?env [''proj''] [''proj'', ''Homol'']
                    [''proj'', ''match_figs''] ?kw (?a, ?b) ?wab))
     = [\<lparr>pos_args = [[''proj'', ''Homol'', ''Pastisa.tif'', ''b.tif.txt''], [''proj'']],
         kw_args = [(''i0_name'', StrV ''a.tif''), (''i1_name'', StrV ''b.tif''),
                    (''out'', PathV [''proj'', ''match_figs'', ''matches_a.tif-b.tif.png'']),
                    (''line_thickness'', OptV 1)]\<rparr>]"
    by (simp add: joinpath_def demo_world_def match_record_layout_def artifact_layout_def name_def)
  note p = naming_convention [where project_dir = "[''proj'']" and env = ?env and w = ?wab
      and kwargs = ?kw and ?i0.0 = ?a and ?i1.0 = ?c and ?n0.0 = "''a.tif''" and ?n1.0 = "''c.tif''"]
  have 9: "\<not> exists (files ?wab) (match_record_layout [''proj''] (name ?a) (name ?c))"
    by (simp add: eval_defs)
  from p 9 have "process_pair ?env [''proj''] (homol_of [''proj'']) (figs_of [''proj'']) ?kw (?a, ?c) ?wab
         = (Raised (FileNotFoundError (''Matches file ''
                      @ path_str (match_record_layout [''proj''] (name ?a) (name ?c))
                      @ '' does not exist'')),
            print_line (''Exporting matches between '' @ name ?a @ '' and '' @ name ?c) ?wab)"
    by blast
  then have e: "process_pair ?env [''proj''] [''proj'', ''Homol''] [''proj'', ''match_figs''] ?kw
         (?a, ?c) ?wab
     = (Raised (FileNotFoundError ''Matches file proj/Homol/Pastisa.tif/c.tif.txt does not exist''),
        \<lparr>files = demo_fs_ab, stdout = [''Exporting matches between a.tif and c.tif''], calls = []\<rparr>)"
    by (simp add: joinpath_def demo_world_def print_line_def match_record_layout_def name_def
          path_str_def)
  have 10: "[''proj''] \<noteq> ([] :: path)" by simp
  from p 10 have "path_str (match_record_layout [''proj''] ''a.tif'' ''c.tif'')
          = path_str [''proj''] @ ''/Homol/Pastis'' @ ''a.tif'' @ ''/'' @ ''c.tif'' @ ''.txt''
        \<and> path_str (artifact_layout [''proj''] ''a.tif'' ''c.tif'')
          = path_str [''proj''] @ ''/match_figs/matches_'' @ ''a.tif'' @ ''-'' @ ''c.tif'' @ ''.png''"
    by blast
  then have f: "path_str (match_record_layout [''proj''] ''a.tif'' ''c.tif'') = ''proj/Homol/Pastisa.tif/c.tif.txt''"
    and g: "path_str (artifact_layout [''proj''] ''a.tif'' ''c.tif'') = ''proj/match_figs/matches_a.tif-c.tif.png''"
    by (simp_all add: path_str_def)
  from a b c d e f g show ?thesis by (intro conjI)
qed

section \<open>Output paths of different pairs\<close>

text \<open>
  C6, as stated, fails: the output name joins the two file names with a hyphen, so two
  different pairs get one output path when file names hold hyphens themselves. With the
  images \<^verbatim>\<open>a.tif\<close>, \<^verbatim>\<open>a.tif-b.tif\<close>, \<^verbatim>\<open>b.tif-c.tif\<close>, \<^verbatim>\<open>c.tif\<close> the pairs
  \<^verbatim>\<open>(a.tif, b.tif-c.tif)\<close> and \<^verbatim>\<open>(a.tif-b.tif, c.tif)\<close> are both enumerated and both are
  given \<^verbatim>\<open>match_figs/matches_a.tif-b.tif-c.tif.png\<close>.
\<close>

theorem output_paths_collide:
  "combinations2 (sort hyphen_listing) ! 1 \<noteq> combinations2 (sort hyphen_listing) ! 4
   \<and> pos_args ((parallel_params [''proj''] [''proj'', ''Homol''] [''proj'', ''match_figs'']
                  (sort hyphen_listing) :: nat render_call list) ! 1) ! 2
       = [''proj'', ''match_figs'', ''matches_a.tif-b.tif-c.tif.png'']
   \<and> pos_args ((parallel_params [''proj''] [''proj'', ''Homol''] [''proj'', ''match_figs'']
                  (sort hyphen_listing) :: nat render_call list) ! 4) ! 2
       = [''proj'', ''match_figs'', ''matches_a.tif-b.tif-c.tif.png'']"
  by (simp add: hyphen_listing_def parallel_params_def joinpath_def name_def)

text \<open>
  C6, amended. When the file names of the images are pairwise different and no file name
  followed by a hyphen is the beginning of the file name of an image, different
  enumerated pairs have different output paths: the output paths of the tasks of the
  parallel branch are pairwise different, and so are the output paths of the calls a
  sequential run makes.
\<close>

theorem output_paths_distinct:
  assumes "distinct (map name found)"
    and "\<forall>a\<in>set found. \<forall>b\<in>set found. \<not> prefix (name a @ ''-'') (name b)"
  shows "distinct (map (\<lambda>c. pos_args c ! 2)
           (parallel_params project_dir (joinpath project_dir ''Homol'')
              (joinpath project_dir ''match_figs'') (sort found) :: 'a render_call list))
     \<and> (glob_paths env (files w) project_dir img_pattern = Inr found \<and> calls w = [] \<longrightarrow>
          distinct (map (\<lambda>c. map_of (kw_args c) ''out'')
            (calls (snd (show_micmac_matches env project_dir img_pattern False kwargs w)))))"
proof -
  let ?pairs = "combinations2 (sort found)"
  let ?art = "\<lambda>pr. artifact_layout project_dir (name (fst pr)) (name (snd pr))"
  from assms(1) have dn: "distinct (map name (sort found))"
    by (metis distinct_map distinct_sort set_sort)
  then have "distinct (sort found)" by (simp add: distinct_map)
  then have dp: "distinct ?pairs" by (rule distinct_combinations2)
  from assms(2) have "\<forall>a\<in>set (sort found). \<forall>b\<in>set (sort found). \<not> prefix (name a @ ''-'') (name b)"
    by simp
  from artifact_of_pair_inj_on [OF dn this] have inj: "inj_on ?art (set ?pairs)" .
  have 1: "distinct (map (\<lambda>c. pos_args c ! 2)
           (parallel_params project_dir (joinpath project_dir ''Homol'')
              (joinpath project_dir ''match_figs'') (sort found) :: 'a render_call list))"
  proof -
    have "map (\<lambda>c. pos_args c ! 2)
           (parallel_params project_dir (joinpath project_dir ''Homol'')
              (joinpath project_dir ''match_figs'') (sort found) :: 'a render_call list)
          = map ?art ?pairs"
      by (simp add: parallel_params_layout out_of_parallel_task comp_def)
    with dp inj show ?thesis by (simp add: distinct_map)
  qed
  have 2: "distinct (map (\<lambda>c. map_of (kw_args c) ''out'')
            (calls (snd (show_micmac_matches env project_dir img_pattern False kwargs w))))"
    if g: "glob_paths env (files w) project_dir img_pattern = Inr found" and c: "calls w = []"
  proof -
    from show_micmac_matches_sequential_calls [OF g, of kwargs] c obtain k where
      k: "calls (snd (show_micmac_matches env project_dir img_pattern False kwargs w))
            = map (sequential_call project_dir kwargs) (take k ?pairs)"
      by auto
    have m: "map (\<lambda>c. map_of (kw_args c) ''out'') (map (sequential_call project_dir kwargs) (take k ?pairs))
          = map (\<lambda>pr. Some (PathV (?art pr))) (take k ?pairs)"
      by (simp add: out_of_sequential_call comp_def)
    have "inj_on (\<lambda>pr. Some (PathV (?art pr))) (set (take k ?pairs))"
      using inj by (auto simp: inj_on_def dest: in_set_takeD)
    moreover have "distinct (take k ?pairs)" using dp by simp
    ultimately have "distinct (map (\<lambda>pr. Some (PathV (?art pr))) (take k ?pairs))"
      by (simp add: distinct_map)
    then show ?thesis unfolding k m .
  qed
  from 1 2 show ?thesis by blast
qed


theorem output_paths_distinct_witness:
  "distinct (map name demo_listing)
   \<and> glob_paths (demo_env demo_listing) (files (demo_world demo_fs_ab)) [''proj''] ''*.tif'' = Inr demo_listing
   \<and> calls (demo_world demo_fs_ab) = []
   \<and> distinct (map (\<lambda>c. pos_args c ! 2)
           (parallel_params [''proj''] (joinpath [''proj''] ''Homol'')
              (joinpath [''proj''] ''match_figs'') (sort demo_listing) :: nat render_call list))
   \<and> distinct (map (\<lambda>c. map_of (kw_args c) ''out'')
            (calls (snd (show_micmac_matches (demo_env demo_listing) [''proj''] ''*.tif'' False []
                           (demo_world demo_fs_ab)))))"
proof -
  have 1: "distinct (map name demo_listing)" by (simp add: demo_listing_def name_def)
  have 2: "\<forall>a\<in>set demo_listing. \<forall>b\<in>set demo_listing. \<not> prefix (name a @ ''-'') (name b)"
    by (simp add: demo_listing_def name_def)
  have 3: "glob_paths (demo_env demo_listing) (files (demo_world demo_fs_ab)) [''proj''] ''*.tif'' = Inr demo_listing"
    by (simp add: demo_env_def)
  have 4: "calls (demo_world demo_fs_ab) = []" by (simp add: demo_world_def)
  from output_paths_distinct [OF 1 2, of "[''proj'']" "demo_env demo_listing" "demo_world demo_fs_ab" "''*.tif''" "[]"]
    1 3 4
  show ?thesis by blast
qed

section \<open>The order of the discovered images\<close>

text \<open>
  C7, as stated, fails: the images are sorted as paths, component by component, not by
  file name. For a pattern that reaches into subdirectories the two orders differ: of
  \<^verbatim>\<open>y/a.tif\<close> and \<^verbatim>\<open>x/b.tif\<close> the image \<^verbatim>\<open>x/b.tif\<close> comes first, and the one pair is
  \<^verbatim>\<open>(b.tif, a.tif)\<close>.
\<close>

theorem discovery_not_by_filename:
  "sort nested_listing = [[''proj'', ''x'', ''b.tif''], [''proj'', ''y'', ''a.tif'']]
   \<and> map name (sort nested_listing) = [''b.tif'', ''a.tif'']
   \<and> \<not> sorted (map name (sort nested_listing))
   \<and> show_micmac_matches (demo_env nested_listing) [''proj''] ''*/*.tif'' True [] (demo_world demo_fs)
       = (Returned,
          \<lparr>files = demo_fs([''proj'', ''match_figs''] \<mapsto> Dir), stdout = [],
           calls = [\<lparr>pos_args = [[''proj'', ''Homol'', ''Pastisb.tif'', ''a.tif.txt''], [''proj''],
                                 [''proj'', ''match_figs'', ''matches_b.tif-a.tif.png'']],
                     kw_args = []\<rparr>]\<rparr>)"
proof -
  have s: "sort nested_listing = [[''proj'', ''x'', ''b.tif''], [''proj'', ''y'', ''a.tif'']]"
    by (simp add: nested_listing_def)
  have m: "mkdir_parents_exist_ok [''proj'', ''match_figs''] demo_fs
             = Inr (demo_fs([''proj'', ''match_figs''] \<mapsto> Dir))"
    by (simp add: mkdir_parents_exist_ok.simps eval_defs)
  have 1: "exists (files (demo_world demo_fs)) [''proj'']" by (simp add: eval_defs)
  have 2: "exists (files (demo_world demo_fs)) (homol_of [''proj''])" by (simp add: eval_defs)
  have 3: "glob_paths (demo_env nested_listing) (files (demo_world demo_fs)) [''proj''] ''*/*.tif''
             = Inr nested_listing"
    by (simp add: demo_env_def)
  have 4: "mkdir_parents_exist_ok (figs_of [''proj'']) (files (demo_world demo_fs))
             = Inr (demo_fs([''proj'', ''match_figs''] \<mapsto> Dir))"
    using m by (simp add: demo_world_def joinpath_def)
  have "show_micmac_matches (demo_env nested_listing) [''proj''] ''*/*.tif'' True [] (demo_world demo_fs)
       = (Returned,
          \<lparr>files = demo_fs([''proj'', ''match_figs''] \<mapsto> Dir), stdout = [],
           calls = [\<lparr>pos_args = [[''proj'', ''Homol'', ''Pastisb.tif'', ''a.tif.txt''], [''proj''],
                                 [''proj'', ''match_figs'', ''matches_b.tif-a.tif.png'']],
                     kw_args = []\<rparr>]\<rparr>)"
    using show_micmac_matches_run [OF 1 2 3 4, of True "[]"]
    by (simp add: s demo_env_def demo_world_def pool_run_def parallel_task_def
          match_record_layout_def artifact_layout_def name_def)
  with s show ?thesis by (simp add: name_def)
qed

text \<open>
  C7, amended. The images show_micmac_matches works on are the matching paths in
  ascending order of paths (component by component, each component as a string): both
  branches run on the enumeration over the sorted listing, every enumerated pair has its
  smaller path first, and a sequential call that returns has called the renderer for the
  pairs in this order. When every matching path lies directly in one directory this is
  the lexicographic order of the file names. The order is deterministic: two listings of
  the same set of paths, in whatever order the operating system gives them, are sorted
  to the same sequence, give the same pairs in the same orientation, and the whole call
  does the same.
\<close>

theorem discovery_order:
  "(exists (files w) project_dir \<and> exists (files w) (homol_of project_dir)
      \<and> glob_paths env (files w) project_dir img_pattern = Inr found
      \<and> mkdir_parents_exist_ok (figs_of project_dir) (files w) = Inr f1 \<longrightarrow>
      show_micmac_matches env project_dir img_pattern run_parallel kwargs w
        = (if \<not> run_parallel
           then sequential_loop env project_dir (homol_of project_dir) (figs_of project_dir) kwargs
                  (combinations2 (sort found)) (w\<lparr>files := f1\<rparr>)
           else pool_run env
                  (parallel_params project_dir (homol_of project_dir) (figs_of project_dir) (sort found))
                  (w\<lparr>files := f1\<rparr>)))
   \<and> (glob_paths env (files w) project_dir img_pattern = Inr found \<longrightarrow>
        (\<forall>w'. show_micmac_matches env project_dir img_pattern False kwargs w = (Returned, w') \<longrightarrow>
           calls w' = calls w @ map (sequential_call project_dir kwargs) (combinations2 (sort found))))
   \<and> sorted (sort found) \<and> set (sort found) = set found \<and> length (sort found) = length found
   \<and> (\<forall>(i0, i1) \<in> set (combinations2 (sort found)). i0 \<le> i1)
   \<and> ((\<forall>p\<in>set found. p \<noteq> [] \<and> parent p = project_dir) \<longrightarrow> sorted (map name (sort found)))
   \<and> (distinct found \<and> distinct found' \<and> set found = set found' \<longrightarrow>
        sort found = sort found' \<and> combinations2 (sort found) = combinations2 (sort found')
        \<and> (glob_paths env (files w) project_dir img_pattern = Inr found
             \<and> glob_paths env' (files w) project_dir img_pattern = Inr found'
             \<and> render env' = render env \<and> pool_starmap env' = pool_starmap env \<longrightarrow>
             show_micmac_matches env' project_dir img_pattern run_parallel kwargs w
               = show_micmac_matches env project_dir img_pattern run_parallel kwargs w))"
proof -
  have 1: "exists (files w) project_dir \<and> exists (files w) (homol_of project_dir)
      \<and> glob_paths env (files w) project_dir img_pattern = Inr found
      \<and> mkdir_parents_exist_ok (figs_of project_dir) (files w) = Inr f1 \<longrightarrow>
      show_micmac_matches env project_dir img_pattern run_parallel kwargs w
        = (if \<not> run_parallel
           then sequential_loop env project_dir (homol_of project_dir) (figs_of project_dir) kwargs
                  (combinations2 (sort found)) (w\<lparr>files := f1\<rparr>)
           else pool_run env
                  (parallel_params project_dir (homol_of project_dir) (figs_of project_dir) (sort found))
                  (w\<lparr>files := f1\<rparr>))"
  proof
    assume h: "exists (files w) project_dir \<and> exists (files w) (homol_of project_dir)
      \<and> glob_paths env (files w) project_dir img_pattern = Inr found
      \<and> mkdir_parents_exist_ok (figs_of project_dir) (files w) = Inr f1"
    note r = conjunct2 [OF h]
    note r2 = conjunct2 [OF r]
    from show_micmac_matches_run [OF conjunct1 [OF h] conjunct1 [OF r] conjunct1 [OF r2]
        conjunct2 [OF r2], of run_parallel kwargs]
    show "show_micmac_matches env project_dir img_pattern run_parallel kwargs w
        = (if \<not> run_parallel
           then sequential_loop env project_dir (homol_of project_dir) (figs_of project_dir) kwargs
                  (combinations2 (sort found)) (w\<lparr>files := f1\<rparr>)
           else pool_run env
                  (parallel_params project_dir (homol_of project_dir) (figs_of project_dir) (sort found))
                  (w\<lparr>files := f1\<rparr>))"
      by (simp only: parallel_params_layout)
  qed
  have 2: "glob_paths env (files w) project_dir img_pattern = Inr found \<longrightarrow>
        (\<forall>w'. show_micmac_matches env project_dir img_pattern False kwargs w = (Returned, w') \<longrightarrow>
           calls w' = calls w @ map (sequential_call project_dir kwargs) (combinations2 (sort found)))"
    using show_micmac_matches_returned [of env w project_dir img_pattern found kwargs] by blast
  have 3: "sorted (sort found)" by simp
  have 4: "set (sort found) = set found" by simp
  have 5: "length (sort found) = length found" by simp
  have 6: "\<forall>(i0, i1) \<in> set (combinations2 (sort found)). i0 \<le> i1"
  proof (intro ballI)
    fix pr assume "pr \<in> set (combinations2 (sort found))"
    then have "(fst pr, snd pr) \<in> set (combinations2 (sort found))" by simp
    from combinations2_sorted_le [OF 3 this] show "case pr of (i0, i1) \<Rightarrow> i0 \<le> i1"
      by (simp add: case_prod_beta)
  qed
  have 7: "(\<forall>p\<in>set found. p \<noteq> [] \<and> parent p = project_dir) \<longrightarrow> sorted (map name (sort found))"
    using sorted_names [of "sort found" project_dir] by simp
  have 8: "distinct found \<and> distinct found' \<and> set found = set found' \<longrightarrow>
        sort found = sort found' \<and> combinations2 (sort found) = combinations2 (sort found')
        \<and> (glob_paths env (files w) project_dir img_pattern = Inr found
             \<and> glob_paths env' (files w) project_dir img_pattern = Inr found'
             \<and> render env' = render env \<and> pool_starmap env' = pool_starmap env \<longrightarrow>
             show_micmac_matches env' project_dir img_pattern run_parallel kwargs w
               = show_micmac_matches env project_dir img_pattern run_parallel kwargs w)"
  proof (intro impI conjI)
    assume a: "distinct found \<and> distinct found' \<and> set found = set found'"
    then show s: "sort found = sort found'"
      by (intro sorted_distinct_set_unique) simp_all
    then show "combinations2 (sort found) = combinations2 (sort found')" by simp
    assume "glob_paths env (files w) project_dir img_pattern = Inr found
             \<and> glob_paths env' (files w) project_dir img_pattern = Inr found'
             \<and> render env' = render env \<and> pool_starmap env' = pool_starmap env"
    then show "show_micmac_matches env' project_dir img_pattern run_parallel kwargs w
               = show_micmac_matches env project_dir img_pattern run_parallel kwargs w"
      using show_micmac_matches_env [of env w project_dir img_pattern found env' found' run_parallel kwargs] s
      by blast
  qed
  from 1 2 3 4 5 6 7 8 show ?thesis by (intro conjI)
qed

theorem discovery_order_witness:
  "map parent demo_listing = [[''proj''], [''proj''], [''proj'']]
   \<and> sort demo_listing = [[''proj'', ''a.tif''], [''proj'', ''b.tif''], [''proj'', ''c.tif'']]
   \<and> sorted (map name (sort demo_listing))
   \<and> show_micmac_matches (demo_env demo_listing) [''proj''] ''*.tif'' False [] (demo_world demo_fs_all)
       = (Returned,
          \<lparr>files = demo_fs_all([''proj'', ''match_figs''] \<mapsto> Dir),
           stdout = [''Exporting matches between a.tif and b.tif'', ''Done.'',
                     ''Exporting matches between a.tif and c.tif'', ''Done.'',
                     ''Exporting matches between b.tif and c.tif'', ''Done.''],
           calls = map (sequential_call [''proj''] [])
                     [([''proj'', ''a.tif''], [''proj'', ''b.tif'']),
                      ([''proj'', ''a.tif''], [''proj'', ''c.tif'']),
                      ([''proj'', ''b.tif''], [''proj'', ''c.tif''])]\<rparr>)
   \<and> show_micmac_matches (demo_env demo_listing) [''proj''] ''*.tif'' True [] (demo_world demo_fs_all)
       = (Returned,
          \<lparr>files = demo_fs_all([''proj'', ''match_figs''] \<mapsto> Dir), stdout = [],
           calls = map (parallel_task [''proj''])
                     [([''proj'', ''a.tif''], [''proj'', ''b.tif'']),
                      ([''proj'', ''a.tif''], [''proj'', ''c.tif'']),
                      ([''proj'', ''b.tif''], [''proj'', ''c.tif''])]\<rparr>)
   \<and> distinct demo_listing \<and> distinct (rev demo_listing) \<and> set demo_listing = set (rev demo_listing)
   \<and> sort demo_listing = sort (rev demo_listing)
   \<and> show_micmac_matches (demo_env (rev demo_listing)) [''proj''] ''*.tif'' False [] (demo_world demo_fs_all)
       = show_micmac_matches (demo_env demo_listing) [''proj''] ''*.tif'' False [] (demo_world demo_fs_all)"
proof -
  let ?w = "demo_world demo_fs_all" and ?env = "demo_env demo_listing"
  let ?f1 = "demo_fs_all([''proj'', ''match_figs''] \<mapsto> Dir)"
  have 0: "map parent demo_listing = [[''proj''], [''proj''], [''proj'']]"
    by (simp add: demo_listing_def parent_def)
  have p: "\<forall>p\<in>set demo_listing. p \<noteq> [] \<and> parent p = [''proj'']"
    by (simp add: demo_listing_def parent_def)
  have 1: "exists (files ?w) [''proj'']" by (simp add: eval_all)
  have 2: "exists (files ?w) (homol_of [''proj''])" by (simp add: eval_all)
  have 3: "glob_paths ?env (files ?w) [''proj''] ''*.tif'' = Inr demo_listing"
    by (simp add: demo_env_def)
  have 4: "mkdir_parents_exist_ok (figs_of [''proj'']) (files ?w) = Inr ?f1"
    using demo_mkdir_all by (simp add: demo_world_def joinpath_def)
  have 5: "distinct demo_listing \<and> distinct (rev demo_listing) \<and> set demo_listing = set (rev demo_listing)"
    by (simp add: demo_listing_def del: rev.simps)
  have 6: "glob_paths ?env (files ?w) [''proj''] ''*.tif'' = Inr demo_listing
     \<and> glob_paths (demo_env (rev demo_listing)) (files ?w) [''proj''] ''*.tif'' = Inr (rev demo_listing)
     \<and> render (demo_env (rev demo_listing)) = render ?env
     \<and> pool_starmap (demo_env (rev demo_listing)) = pool_starmap ?env"
    by (simp add: demo_env_def)
  note d = discovery_order [where found = demo_listing and found' = "rev demo_listing"
      and project_dir = "[''proj'']" and env = ?env and env' = "demo_env (rev demo_listing)"
      and w = ?w and img_pattern = "''*.tif''" and kwargs = "[]" and ?f1.0 = ?f1]
  from d [where run_parallel = False] 1 2 3 4
  have "show_micmac_matches ?env [''proj''] ''*.tif'' False [] ?w
        = (if \<not> False
           then sequential_loop ?env [''proj''] (homol_of [''proj'']) (figs_of [''proj'']) []
                  (combinations2 (sort demo_listing)) (?w\<lparr>files := ?f1\<rparr>)
           else pool_run ?env
                  (parallel_params [''proj''] (homol_of [''proj'']) (figs_of [''proj'']) (sort demo_listing))
                  (?w\<lparr>files := ?f1\<rparr>))"
    by blast
  then have a: "show_micmac_matches ?env [''proj''] ''*.tif'' False [] ?w
       = (Returned,
          \<lparr>files = ?f1,
           stdout = [''Exporting matches between a.tif and b.tif'', ''Done.'',
                     ''Exporting matches between a.tif and c.tif'', ''Done.'',
                     ''Exporting matches between b.tif and c.tif'', ''Done.''],
           calls = map (sequential_call [''proj''] [])
                     [([''proj'', ''a.tif''], [''proj'', ''b.tif'']),
                      ([''proj'', ''a.tif''], [''proj'', ''c.tif'']),
                      ([''proj'', ''b.tif''], [''proj'', ''c.tif''])]\<rparr>)"
    by (simp add: demo_sort eval_all)
  from d [where run_parallel = True] 1 2 3 4
  have "show_micmac_matches ?env [''proj''] ''*.tif'' True [] ?w
        = (if \<not> True
           then sequential_loop ?env [''proj''] (homol_of [''proj'']) (figs_of [''proj'']) []
                  (combinations2 (sort demo_listing)) (?w\<lparr>files := ?f1\<rparr>)
           else pool_run ?env
                  (parallel_params [''proj''] (homol_of [''proj'']) (figs_of [''proj'']) (sort demo_listing))
                  (?w\<lparr>files := ?f1\<rparr>))"
    by blast
  then have b: "show_micmac_matches ?env [''proj''] ''*.tif'' True [] ?w
       = (Returned,
          \<lparr>files = ?f1, stdout = [],
           calls = map (parallel_task [''proj''])
                     [([''proj'', ''a.tif''], [''proj'', ''b.tif'']),
                      ([''proj'', ''a.tif''], [''proj'', ''c.tif'']),
                      ([''proj'', ''b.tif''], [''proj'', ''c.tif''])]\<rparr>)"
    by (simp add: demo_sort parallel_params_layout pool_run_def demo_env_def demo_world_def)
  from d [where run_parallel = False] p have c: "sorted (map name (sort demo_listing))" by blast
  from d [where run_parallel = False] 5 have e: "sort demo_listing = sort (rev demo_listing)" by blast
  from d [where run_parallel = False] 5 6
  have f: "show_micmac_matches (demo_env (rev demo_listing)) [''proj''] ''*.tif'' False [] ?w
       = show_micmac_matches ?env [''proj''] ''*.tif'' False [] ?w"
    by blast
  note g = conjunct1 [OF 5] and h = conjunct1 [OF conjunct2 [OF 5]]
    and i = conjunct2 [OF conjunct2 [OF 5]]
  from 0 demo_sort c a b g h i e f show ?thesis by (intro conjI)
qed

section \<open>Creation of the output directory\<close>




section \<open>Fewer than two images\<close>

text \<open>
  C9, as stated, fails: when a regular file named \<^verbatim>\<open>match_figs\<close> is in the project
  directory the creation of the output directory raises FileExistsError, whatever the
  number of images, and no directory is created.
\<close>

theorem fewer_than_two_images_blocked:
  "is_dir (files (demo_world demo_fs_blocked)) [''proj'']
   \<and> is_dir (files (demo_world demo_fs_blocked)) [''proj'', ''Homol'']
   \<and> show_micmac_matches (demo_env []) [''proj''] ''*.tif'' False [] (demo_world demo_fs_blocked)
       = (Raised (FileExistsError ''proj/match_figs''), demo_world demo_fs_blocked)"
  by (simp add: show_micmac_matches_def mkdir_parents_exist_ok.simps demo_fs_blocked_def eval_defs)

text \<open>
  C9, amended. When the project directory and its Homol subdirectory exist, fewer than
  two images match and \<^verbatim>\<open>match_figs\<close> is not an existing regular file, the call returns
  in either mode: it has made no renderer call and printed no progress line (so it has
  looked for no match record), and the only change is that \<^verbatim>\<open>match_figs\<close> is a
  directory now.
\<close>

theorem fewer_than_two_images:
  assumes "is_dir (files w) project_dir" and "is_dir (files w) (joinpath project_dir ''Homol'')"
    and "glob_paths env (files w) project_dir img_pattern = Inr found"
    and "length found < 2"
    and "lookup (files w) (joinpath project_dir ''match_figs'') \<noteq> Some File"
  shows "show_micmac_matches env project_dir img_pattern run_parallel kwargs w
           = (Returned, w\<lparr>files := (files w)(joinpath project_dir ''match_figs'' \<mapsto> Dir)\<rparr>)
         \<and> is_dir ((files w)(joinpath project_dir ''match_figs'' \<mapsto> Dir)) (joinpath project_dir ''match_figs'')"
proof -
  from assms(1,2) have 1: "exists (files w) project_dir" and 2: "exists (files w) (homol_of project_dir)"
    by (simp_all add: is_dir_def exists_def)
  from assms(4) have e: "combinations2 (sort found) = []" by (intro combinations2_short) simp
  from show_micmac_matches_run [OF 1 2 assms(3) mkdir_figs [OF assms(1,5)], of run_parallel kwargs] e
  have "show_micmac_matches env project_dir img_pattern run_parallel kwargs w
           = (Returned, w\<lparr>files := (files w)(figs_of project_dir \<mapsto> Dir)\<rparr>)"
    by (simp add: pool_run_def)
  then show ?thesis by (simp add: is_dir_def lookup_def)
qed

theorem fewer_than_two_images_witness:
  "is_dir (files (demo_world demo_fs)) [''proj'']
   \<and> is_dir (files (demo_world demo_fs)) (joinpath [''proj''] ''Homol'')
   \<and> glob_paths (demo_env [[''proj'', ''a.tif'']]) (files (demo_world demo_fs)) [''proj''] ''*.tif''
       = Inr [[''proj'', ''a.tif'']]
   \<and> length [[''proj'', ''a.tif'']] < 2
   \<and> lookup (files (demo_world demo_fs)) (joinpath [''proj''] ''match_figs'') \<noteq> Some File
   \<and> show_micmac_matches (demo_env [[''proj'', ''a.tif'']]) [''proj''] ''*.tif'' True [] (demo_world demo_fs)
       = (Returned, \<lparr>files = demo_fs([''proj'', ''match_figs''] \<mapsto> Dir), stdout = [], calls = []\<rparr>)
   \<and> show_micmac_matches (demo_env [[''proj'', ''a.tif'']]) [''proj''] ''*.tif'' False [] (demo_world demo_fs)
       = (Returned, \<lparr>files = demo_fs([''proj'', ''match_figs''] \<mapsto> Dir), stdout = [], calls = []\<rparr>)"
proof -
  let ?w = "demo_world demo_fs" and ?env = "demo_env [[''proj'', ''a.tif'']]"
  have 1: "is_dir (files ?w) [''proj'']" by (simp add: eval_defs)
  have 2: "is_dir (files ?w) (joinpath [''proj''] ''Homol'')" by (simp add: eval_defs)
  have 3: "glob_paths ?env (files ?w) [''proj''] ''*.tif'' = Inr [[''proj'', ''a.tif'']]"
    by (simp add: demo_env_def)
  have 4: "length [[''proj'', ''a.tif'']] < 2" by simp
  have 5: "lookup (files ?w) (joinpath [''proj''] ''match_figs'') \<noteq> Some File" by (simp add: eval_defs)
  from fewer_than_two_images [OF 1 2 3 4 5, of True "[]"]
  have a: "show_micmac_matches ?env [''proj''] ''*.tif'' True [] ?w
       = (Returned, \<lparr>files = demo_fs([''proj'', ''match_figs''] \<mapsto> Dir), stdout = [], calls = []\<rparr>)"
    by (simp add: demo_world_def joinpath_def)
  from fewer_than_two_images [OF 1 2 3 4 5, of False "[]"]
  have b: "show_micmac_matches ?env [''proj''] ''*.tif'' False [] ?w
       = (Returned, \<lparr>files = demo_fs([''proj'', ''match_figs''] \<mapsto> Dir), stdout = [], calls = []\<rparr>)"
    by (simp add: demo_world_def joinpath_def)
  from 1 2 3 4 5 a b show ?thesis by (intro conjI)
qed

section \<open>A failed sequential run is not rolled back\<close>

text \<open>
  C10. In sequential mode the output directory is created before any pair is looked at:
  if its creation fails the call raises that error and has touched no pair, so a run that
  reaches a pair has created the directory. When such a run then stops at a missing match
  record, nothing is undone: the state it leaves is the state the loop had reached. It
  still holds the directory when the failing pair is the first one or the renderer calls
  made for the earlier pairs do not remove it; then, if \<^verbatim>\<open>match_figs\<close> did not exist
  before the call, the file system after the failed call differs from the one before.
\<close>

theorem failed_run_keeps_output_directory:
  assumes "exists (files w) project_dir" and "exists (files w) (joinpath project_dir ''Homol'')"
    and "glob_paths env (files w) project_dir img_pattern = Inr found"
  shows "(mkdir_parents_exist_ok (joinpath project_dir ''match_figs'') (files w) = Inl e \<longrightarrow>
            show_micmac_matches env project_dir img_pattern False kwargs w = (Raised e, w))
     \<and> (mkdir_parents_exist_ok (joinpath project_dir ''match_figs'') (files w) = Inr f1
         \<and> combinations2 (sort found) = ps @ (i0, i1) # qs
         \<and> sequential_loop env project_dir (joinpath project_dir ''Homol'')
               (joinpath project_dir ''match_figs'') kwargs ps (w\<lparr>files := f1\<rparr>) = (Returned, w2)
         \<and> \<not> exists (files w2) (match_record_layout project_dir (name i0) (name i1)) \<longrightarrow>
          show_micmac_matches env project_dir img_pattern False kwargs w =
            (Raised (FileNotFoundError (''Matches file ''
                       @ path_str (match_record_layout project_dir (name i0) (name i1))
                       @ '' does not exist'')),
             print_line (''Exporting matches between '' @ name i0 @ '' and '' @ name i1) w2)
          \<and> is_dir f1 (joinpath project_dir ''match_figs'')
          \<and> (ps = []
               \<or> (\<forall>c f r f'. render env c f = (r, f') \<longrightarrow> is_dir f (joinpath project_dir ''match_figs'')
                     \<longrightarrow> is_dir f' (joinpath project_dir ''match_figs'')) \<longrightarrow>
               is_dir (files (print_line (''Exporting matches between '' @ name i0 @ '' and '' @ name i1) w2))
                 (joinpath project_dir ''match_figs'')
               \<and> (\<not> exists (files w) (joinpath project_dir ''match_figs'') \<longrightarrow>
                     files (print_line (''Exporting matches between '' @ name i0 @ '' and '' @ name i1) w2)
                       \<noteq> files w)))"
proof (intro conjI impI)
  assume "mkdir_parents_exist_ok (figs_of project_dir) (files w) = Inl e"
  with assms show "show_micmac_matches env project_dir img_pattern False kwargs w = (Raised e, w)"
    by (simp add: show_micmac_matches_def Let_def)
next
  let ?w3 = "print_line (''Exporting matches between '' @ name i0 @ '' and '' @ name i1) w2"
  assume h: "mkdir_parents_exist_ok (figs_of project_dir) (files w) = Inr f1
         \<and> combinations2 (sort found) = ps @ (i0, i1) # qs
         \<and> sequential_loop env project_dir (homol_of project_dir)
               (figs_of project_dir) kwargs ps (w\<lparr>files := f1\<rparr>) = (Returned, w2)
         \<and> \<not> exists (files w2) (match_record_layout project_dir (name i0) (name i1))"
  from h have m: "mkdir_parents_exist_ok (figs_of project_dir) (files w) = Inr f1" by (elim conjE)
  from h have c: "combinations2 (sort found) = ps @ (i0, i1) # qs" by (elim conjE)
  from h have l: "sequential_loop env project_dir (homol_of project_dir)
               (figs_of project_dir) kwargs ps (w\<lparr>files := f1\<rparr>) = (Returned, w2)" by (elim conjE)
  from h have n: "\<not> exists (files w2) (match_record_layout project_dir (name i0) (name i1))"
    by (elim conjE)
  have "show_micmac_matches env project_dir img_pattern False kwargs w =
      sequential_loop env project_dir (homol_of project_dir) (figs_of project_dir) kwargs
        (ps @ (i0, i1) # qs) (w\<lparr>files := f1\<rparr>)"
    using show_micmac_matches_run [OF assms m, of False kwargs] c by simp
  also have "\<dots> = sequential_loop env project_dir (homol_of project_dir) (figs_of project_dir) kwargs
        ((i0, i1) # qs) w2"
    using l by (simp add: sequential_loop_append)
  also have "\<dots> = (Raised (FileNotFoundError (''Matches file ''
                      @ path_str (match_record_layout project_dir (name i0) (name i1))
                      @ '' does not exist'')), ?w3)"
    using process_pair_missing [OF n, of env kwargs] by simp
  finally show "show_micmac_matches env project_dir img_pattern False kwargs w =
            (Raised (FileNotFoundError (''Matches file ''
                       @ path_str (match_record_layout project_dir (name i0) (name i1))
                       @ '' does not exist'')), ?w3)" .
  from m show d1: "is_dir f1 (figs_of project_dir)" by (rule mkdir_result_is_dir)
  assume r: "ps = []
               \<or> (\<forall>c f r f'. render env c f = (r, f') \<longrightarrow> is_dir f (figs_of project_dir)
                     \<longrightarrow> is_dir f' (figs_of project_dir))"
  have "is_dir (files w2) (figs_of project_dir)"
    using r
  proof
    assume "ps = []"
    with l have "w2 = w\<lparr>files := f1\<rparr>" by simp
    with d1 show ?thesis by simp
  next
    assume p: "\<forall>c f r f'. render env c f = (r, f') \<longrightarrow> is_dir f (figs_of project_dir)
                     \<longrightarrow> is_dir f' (figs_of project_dir)"
    from d1 have "is_dir (files (w\<lparr>files := f1\<rparr>)) (figs_of project_dir)" by simp
    from sequential_loop_preserves [where P = "\<lambda>f. is_dir f (figs_of project_dir)", OF p this,
        of project_dir "homol_of project_dir" "figs_of project_dir" kwargs ps] l
    show ?thesis by simp
  qed
  then show d3: "is_dir (files ?w3) (figs_of project_dir)" by simp
  assume "\<not> exists (files w) (figs_of project_dir)"
  then have "\<not> is_dir (files w) (figs_of project_dir)" by (simp add: exists_def is_dir_def)
  with d3 show "files ?w3 \<noteq> files w" by auto
qed

theorem failed_run_keeps_output_directory_witness:
  "exists (files (demo_world demo_fs_ab)) [''proj'']
   \<and> exists (files (demo_world demo_fs_ab)) (joinpath [''proj''] ''Homol'')
   \<and> glob_paths (demo_env demo_listing) (files (demo_world demo_fs_ab)) [''proj''] ''*.tif'' = Inr demo_listing
   \<and> \<not> exists (files (demo_world demo_fs_ab)) (joinpath [''proj''] ''match_figs'')
   \<and> show_micmac_matches (demo_env demo_listing) [''proj''] ''*.tif'' False [] (demo_world demo_fs_ab) =
       (Raised (FileNotFoundError ''Matches file proj/Homol/Pastisa.tif/c.tif.txt does not exist''),
        \<lparr>files = demo_fs_ab([''proj'', ''match_figs''] \<mapsto> Dir),
         stdout = [''Exporting matches between a.tif and b.tif'', ''Done.'',
                   ''Exporting matches between a.tif and c.tif''],
         calls = [sequential_call [''proj''] [] ([''proj'', ''a.tif''], [''proj'', ''b.tif''])]\<rparr>)
   \<and> is_dir (demo_fs_ab([''proj'', ''match_figs''] \<mapsto> Dir)) (joinpath [''proj''] ''match_figs'')
   \<and> demo_fs_ab([''proj'', ''match_figs''] \<mapsto> Dir) \<noteq> files (demo_world demo_fs_ab)
   \<and> exists (files (demo_world demo_fs_blocked)) [''proj'']
   \<and> exists (files (demo_world demo_fs_blocked)) (joinpath [''proj''] ''Homol'')
   \<and> show_micmac_matches (demo_env demo_listing) [''proj''] ''*.tif'' False [] (demo_world demo_fs_blocked) =
       (Raised (FileExistsError ''proj/match_figs''), demo_world demo_fs_blocked)"
proof -
  let ?w = "demo_world demo_fs_ab"
  let ?env = "demo_env demo_listing"
  let ?f1 = "demo_fs_ab([''proj'', ''match_figs''] \<mapsto> Dir)"
  let ?a = "[''proj'', ''a.tif'']" and ?b = "[''proj'', ''b.tif'']" and ?c = "[''proj'', ''c.tif'']"
  let ?w2 = "\<lparr>files = ?f1,
       stdout = [''Exporting matches between a.tif and b.tif'', ''Done.''],
       calls = [sequential_call [''proj''] [] (?a, ?b) :: nat render_call]\<rparr>"
  have 1: "exists (files ?w) [''proj'']" by (simp add: eval_defs)
  have 2: "exists (files ?w) (joinpath [''proj''] ''Homol'')" by (simp add: eval_defs)
  have 3: "glob_paths ?env f [''proj''] ''*.tif'' = Inr demo_listing" for f
    by (simp add: demo_env_def)
  have 4: "mkdir_parents_exist_ok (figs_of [''proj'']) (files ?w) = Inr ?f1"
    using demo_mkdir by (simp add: demo_world_def joinpath_def)
  have 5: "combinations2 (sort demo_listing) = [(?a, ?b)] @ (?a, ?c) # [(?b, ?c)]"
    by (simp add: demo_sort)
  have 6: "sequential_loop ?env [''proj''] (homol_of [''proj'']) (figs_of [''proj''])
             [] [(?a, ?b)] (?w\<lparr>files := ?f1\<rparr>) = (Returned, ?w2)"
    by (simp add: eval_defs)
  have 7: "\<not> exists (files ?w2) (match_record_layout [''proj''] (name ?a) (name ?c))"
    by (simp add: eval_defs)
  have 8: "\<forall>c f r f'. render ?env c f = (r, f') \<longrightarrow> is_dir f (figs_of [''proj''])
                \<longrightarrow> is_dir f' (figs_of [''proj''])"
    by (simp add: demo_env_def)
  have 9: "\<not> exists (files ?w) (joinpath [''proj''] ''match_figs'')" by (simp add: eval_defs)
  note t = failed_run_keeps_output_directory [OF 1 2 3, where ?f1.0 = ?f1 and ps = "[(?a, ?b)]"
      and ?i0.0 = ?a and ?i1.0 = ?c and qs = "[(?b, ?c)]" and kwargs = "[]" and ?w2.0 = ?w2]
  from t 4 5 6 7 8 have r: "show_micmac_matches ?env [''proj''] ''*.tif'' False [] ?w =
            (Raised (FileNotFoundError (''Matches file ''
                       @ path_str (match_record_layout [''proj''] (name ?a) (name ?c))
                       @ '' does not exist'')),
             print_line (''Exporting matches between '' @ name ?a @ '' and '' @ name ?c) ?w2)
          \<and> is_dir ?f1 (joinpath [''proj''] ''match_figs'')
          \<and> is_dir (files (print_line (''Exporting matches between '' @ name ?a @ '' and '' @ name ?c) ?w2))
                (joinpath [''proj''] ''match_figs'')
          \<and> (\<not> exists (files ?w) (joinpath [''proj''] ''match_figs'') \<longrightarrow>
                files (print_line (''Exporting matches between '' @ name ?a @ '' and '' @ name ?c) ?w2)
                  \<noteq> files ?w)"
    by blast
  from r have a: "show_micmac_matches ?env [''proj''] ''*.tif'' False [] ?w =
       (Raised (FileNotFoundError ''Matches file proj/Homol/Pastisa.tif/c.tif.txt does not exist''),
        \<lparr>files = ?f1,
         stdout = [''Exporting matches between a.tif and b.tif'', ''Done.'',
                   ''Exporting matches between a.tif and c.tif''],
         calls = [sequential_call [''proj''] [] (?a, ?b)]\<rparr>)"
    by (simp add: print_line_def match_record_layout_def name_def path_str_def)
  from r have b: "is_dir ?f1 (joinpath [''proj''] ''match_figs'')" by (elim conjE)
  from r 9 have c: "?f1 \<noteq> files ?w" by (simp add: print_line_def)
  let ?wb = "demo_world demo_fs_blocked"
  have 10: "exists (files ?wb) [''proj'']" by (simp add: demo_fs_blocked_def eval_defs)
  have 11: "exists (files ?wb) (joinpath [''proj''] ''Homol'')" by (simp add: demo_fs_blocked_def eval_defs)
  have 12: "mkdir_parents_exist_ok (joinpath [''proj''] ''match_figs'') (files ?wb)
              = Inl (FileExistsError ''proj/match_figs'')"
    by (simp add: mkdir_parents_exist_ok.simps demo_fs_blocked_def eval_defs)
  from failed_run_keeps_output_directory [OF 10 11 3, where e = "FileExistsError ''proj/match_figs''"
      and kwargs = "[]"] 12
  have d: "show_micmac_matches ?env [''proj''] ''*.tif'' False [] ?wb
             = (Raised (FileExistsError ''proj/match_figs''), ?wb)"
    by blast
  from 1 2 3 9 a b c 10 11 d show ?thesis by (intro conjI)
qed

section \<open>The parallel path against the sequential path\<close>

text \<open>
  C1 does not hold of the code. The parallel branch hands the pool the renderer itself
  with three positional arguments per pair (match record path, project directory, output
  path): it does not check that the match record exists, it passes neither image name,
  and it drops the rendering options. The sequential branch checks the match record and
  passes both names, the output path and the options by keyword. Here both branches run
  on two images with the option \<^verbatim>\<open>line_thickness\<close>: without the match record the
  sequential run raises FileNotFoundError and calls nothing while the parallel run
  dispatches the task; with the match record the two calls differ in their arguments.
\<close>

theorem parallel_path_diverges:
  "show_micmac_matches (demo_env demo_pair_listing) [''proj''] ''*.tif'' False
       [(''line_thickness'', 1)] (demo_world demo_fs)
     = (Raised (FileNotFoundError ''Matches file proj/Homol/Pastisa.tif/b.tif.txt does not exist''),
        \<lparr>files = demo_fs([''proj'', ''match_figs''] \<mapsto> Dir),
         stdout = [''Exporting matches between a.tif and b.tif''],
         calls = []\<rparr>)
   \<and> show_micmac_matches (demo_env demo_pair_listing) [''proj''] ''*.tif'' True
       [(''line_thickness'', 1)] (demo_world demo_fs)
     = (Returned,
        \<lparr>files = demo_fs([''proj'', ''match_figs''] \<mapsto> Dir),
         stdout = [],
         calls = [\<lparr>pos_args = [[''proj'', ''Homol'', ''Pastisa.tif'', ''b.tif.txt''],
                               [''proj''],
                               [''proj'', ''match_figs'', ''matches_a.tif-b.tif.png'']],
                   kw_args = []\<rparr>]\<rparr>)
   \<and> show_micmac_matches (demo_env demo_pair_listing) [''proj''] ''*.tif'' False
       [(''line_thickness'', 1)] (demo_world demo_fs_ab)
     = (Returned,
        \<lparr>files = demo_fs_ab([''proj'', ''match_figs''] \<mapsto> Dir),
         stdout = [''Exporting matches between a.tif and b.tif'', ''Done.''],
         calls = [\<lparr>pos_args = [[''proj'', ''Homol'', ''Pastisa.tif'', ''b.tif.txt''], [''proj'']],
                   kw_args = [(''i0_name'', StrV ''a.tif''),
                              (''i1_name'', StrV ''b.tif''),
                              (''out'', PathV [''proj'', ''match_figs'', ''matches_a.tif-b.tif.png'']),
                              (''line_thickness'', OptV 1)]\<rparr>]\<rparr>)
   \<and> show_micmac_matches (demo_env demo_pair_listing) [''proj''] ''*.tif'' True
       [(''line_thickness'', 1)] (demo_world demo_fs_ab)
     = (Returned,
        \<lparr>files = demo_fs_ab([''proj'', ''match_figs''] \<mapsto> Dir),
         stdout = [],
         calls = [\<lparr>pos_args = [[''proj'', ''Homol'', ''Pastisa.tif'', ''b.tif.txt''],
                               [''proj''],
                               [''proj'', ''match_figs'', ''matches_a.tif-b.tif.png'']],
                   kw_args = []\<rparr>]\<rparr>)"
proof -
  let ?env = "demo_env demo_pair_listing"
  let ?kw = "[(''line_thickness'', 1 :: nat)]"
  have s: "sort demo_pair_listing = [[''proj'', ''a.tif''], [''proj'', ''b.tif'']]"
    by (simp add: demo_pair_listing_def)
  have g: "glob_paths ?env f [''proj''] ''*.tif'' = Inr demo_pair_listing" for f
    by (simp add: demo_env_def)
  have e1: "exists (files (demo_world demo_fs)) [''proj'']"
    and e2: "exists (files (demo_world demo_fs)) (homol_of [''proj''])"
    and e3: "exists (files (demo_world demo_fs_ab)) [''proj'']"
    and e4: "exists (files (demo_world demo_fs_ab)) (homol_of [''proj''])"
    by (simp_all add: eval_defs)
  have m1: "mkdir_parents_exist_ok (figs_of [''proj'']) (files (demo_world demo_fs))
             = Inr (demo_fs([''proj'', ''match_figs''] \<mapsto> Dir))"
    using demo_mkdir_plain by (simp add: demo_world_def joinpath_def)
  have m2: "mkdir_parents_exist_ok (figs_of [''proj'']) (files (demo_world demo_fs_ab))
             = Inr (demo_fs_ab([''proj'', ''match_figs''] \<mapsto> Dir))"
    using demo_mkdir by (simp add: demo_world_def joinpath_def)
  have a: "show_micmac_matches ?env [''proj''] ''*.tif'' False ?kw (demo_world demo_fs)
     = (Raised (FileNotFoundError ''Matches file proj/Homol/Pastisa.tif/b.tif.txt does not exist''),
        \<lparr>files = demo_fs([''proj'', ''match_figs''] \<mapsto> Dir),
         stdout = [''Exporting matches between a.tif and b.tif''],
         calls = []\<rparr>)"
    using show_micmac_matches_run [OF e1 e2 g m1, of False ?kw]
    by (simp add: s eval_defs)
  have b: "show_micmac_matches ?env [''proj''] ''*.tif'' True ?kw (demo_world demo_fs)
     = (Returned,
        \<lparr>files = demo_fs([''proj'', ''match_figs''] \<mapsto> Dir),
         stdout = [],
         calls = [\<lparr>pos_args = [[''proj'', ''Homol'', ''Pastisa.tif'', ''b.tif.txt''],
                               [''proj''],
                               [''proj'', ''match_figs'', ''matches_a.tif-b.tif.png'']],
                   kw_args = []\<rparr>]\<rparr>)"
    using show_micmac_matches_run [OF e1 e2 g m1, of True ?kw]
    by (simp add: s eval_defs)
  have c: "show_micmac_matches ?env [''proj''] ''*.tif'' False ?kw (demo_world demo_fs_ab)
     = (Returned,
        \<lparr>files = demo_fs_ab([''proj'', ''match_figs''] \<mapsto> Dir),
         stdout = [''Exporting matches between a.tif and b.tif'', ''Done.''],
         calls = [\<lparr>pos_args = [[''proj'', ''Homol'', ''Pastisa.tif'', ''b.tif.txt''], [''proj'']],
                   kw_args = [(''i0_name'', StrV ''a.tif''),
                              (''i1_name'', StrV ''b.tif''),
                              (''out'', PathV [''proj'', ''match_figs'', ''matches_a.tif-b.tif.png'']),
                              (''line_thickness'', OptV 1)]\<rparr>]\<rparr>)"
    using show_micmac_matches_run [OF e3 e4 g m2, of False ?kw]
    by (simp add: s eval_defs)
  have d: "show_micmac_matches ?env [''proj''] ''*.tif'' True ?kw (demo_world demo_fs_ab)
     = (Returned,
        \<lparr>files = demo_fs_ab([''proj'', ''match_figs''] \<mapsto> Dir),
         stdout = [],
         calls = [\<lparr>pos_args = [[''proj'', ''Homol'', ''Pastisa.tif'', ''b.tif.txt''],
                               [''proj''],
                               [''proj'', ''match_figs'', ''matches_a.tif-b.tif.png'']],
                   kw_args = []\<rparr>]\<rparr>)"
    using show_micmac_matches_run [OF e3 e4 g m2, of True ?kw]
    by (simp add: s eval_defs)
  from a b c d show ?thesis by (intro conjI)
qed

end
